theory Spec2Isabelle
  imports Main
begin

section \<open>Go runtime and library functions the services rely on\<close>

text \<open>
  A Go panic ends the goroutine (and, unrecovered, the process). Two kinds occur in the
  services: the runtime's nil pointer dereference, and the panic \<open>FailOnError\<close> raises
  with its formatted message.
\<close>

datatype panic = NilDereference | Fatal string

text \<open>\<open>strconv.Itoa\<close>: the decimal text of an integer, with a leading minus sign.\<close>

fun digits :: "nat \<Rightarrow> string" where
  "digits n =
     (if n < 10 then [''0123456789'' ! n]
      else digits (n div 10) @ [''0123456789'' ! (n mod 10)])"

declare digits.simps [simp del]

definition Itoa :: "int \<Rightarrow> string" where
  "Itoa i = (if i < 0 then CHR ''-'' # digits (nat (- i)) else digits (nat i))"

text \<open>\<open>strconv.FormatBool\<close>.\<close>

definition FormatBool :: "bool \<Rightarrow> string" where
  "FormatBool b = (if b then ''true'' else ''false'')"

text \<open>
  A decoded JSON document. \<open>json.RawMessage\<close> holds the bytes of one value of an
  enclosing document that was decoded without error, so it is either empty (the key was
  absent) or a well-formed value; it is kept as \<open>json option\<close>.
\<close>

datatype json =
    JNull
  | JBool bool
  | JNumber string
  | JString string
  | JArray "json list"
  | JObject "(string \<times> json) list"

text \<open>
  \<open>json.Unmarshal(raw, &s)\<close> for a string \<open>s\<close>: the error (if any) and the value of
  \<open>s\<close> afterwards. Empty input is a syntax error; \<open>null\<close> leaves the target as it is;
  any value but a string is a type error.
\<close>

fun unmarshal_string :: "json option \<Rightarrow> string \<Rightarrow> string option \<times> string" where
  "unmarshal_string None cur = (Some ''unexpected end of JSON input'', cur)"
| "unmarshal_string (Some (JString s)) cur = (None, s)"
| "unmarshal_string (Some JNull) cur = (None, cur)"
| "unmarshal_string (Some v) cur = (Some ''json: cannot unmarshal into Go value of type string'', cur)"

text \<open>Object keys match a struct field's name without regard to ASCII case.\<close>

definition to_lower :: "char \<Rightarrow> char" where
  "to_lower c =
     (case map_of (zip ''ABCDEFGHIJKLMNOPQRSTUVWXYZ'' ''abcdefghijklmnopqrstuvwxyz'') c of
        Some d \<Rightarrow> d
      | None \<Rightarrow> c)"

definition key_matches :: "string \<Rightarrow> string \<Rightarrow> bool" where
  "key_matches field k = (map to_lower k = map to_lower field)"

section \<open>Sandbox report structures (package lib, lib/cuckoo.go)\<close>

record CkoTasksReportInfoMachine =
  mach_Name :: string

record CkoTasksReportInfo =
  Started :: string
  Ended :: string
  info_Id :: int
  Machine :: "json option"

record CkoTasksReportSignature =
  Severity :: int
  Description :: string
  sig_Name :: string

record CkoTasksReportBhvPcsCallArg =
  arg_Name :: string
  arg_Value :: string

record CkoTasksReportBhvPcsCall =
  Category :: string
  call_Status :: bool
  Return :: string
  Timestamp :: string
  ThreadId :: string
  Repeated :: int
  Api :: string
  Arguments :: "CkoTasksReportBhvPcsCallArg list"
  call_Id :: int

record CkoTasksReportBhvPcs =
  pcs_Name :: string
  pcs_Id :: int
  ParentId :: int
  FirstSeen :: string
  Calls :: "CkoTasksReportBhvPcsCall list"

record CkoTasksReportBhvSummary =
  Files :: "string list"
  Keys :: "string list"
  Mutexes :: "string list"

text \<open>\<open>Summary\<close> is a pointer in the source: \<open>None\<close> is nil (no \<open>summary\<close> key).\<close>

record CkoTasksReportBehavior =
  Processes :: "CkoTasksReportBhvPcs list"
  Summary :: "CkoTasksReportBhvSummary option"

text \<open>
  \<open>json.Unmarshal(raw, mStruct)\<close> for \<open>*CkoTasksReportInfoMachine\<close>. The members of an
  object are visited in order; a \<open>name\<close> member holding a string sets the field, one
  holding \<open>null\<close> is skipped, one holding anything else is a type error, which the decoder
  saves (the earliest one is returned) while it goes on decoding.
\<close>

fun machine_members ::
  "(string \<times> json) list \<Rightarrow> string option \<times> CkoTasksReportInfoMachine
     \<Rightarrow> string option \<times> CkoTasksReportInfoMachine" where
  "machine_members [] acc = acc"
| "machine_members ((k, v) # kvs) (err, m) =
     (if key_matches ''name'' k then
        (case v of
           JString s \<Rightarrow> machine_members kvs (err, m\<lparr>mach_Name := s\<rparr>)
         | JNull \<Rightarrow> machine_members kvs (err, m)
         | _ \<Rightarrow> machine_members kvs
                 (if err = None
                  then Some ''json: cannot unmarshal into Go struct field .name of type string''
                  else err, m))
      else machine_members kvs (err, m))"

fun unmarshal_Machine ::
  "json option \<Rightarrow> CkoTasksReportInfoMachine \<Rightarrow> string option \<times> CkoTasksReportInfoMachine" where
  "unmarshal_Machine None m = (Some ''unexpected end of JSON input'', m)"
| "unmarshal_Machine (Some (JObject kvs)) m = machine_members kvs (None, m)"
| "unmarshal_Machine (Some JNull) m = (None, m)"
| "unmarshal_Machine (Some v) m =
     (Some ''json: cannot unmarshal into Go value of type lib.CkoTasksReportInfoMachine'', m)"

section \<open>Result records and the attribute maps they point to (package lib, \<open>CrtResult\<close>)\<close>

text \<open>
  The dynamic values the services store in a \<open>map[string]interface{}\<close>: strings, the
  booleans and integers of an API call, and its argument list.
\<close>

datatype Value =
    VString string
  | VBool bool
  | VInt int
  | VArguments "CkoTasksReportBhvPcsCallArg list"

type_synonym attrs = "string \<rightharpoonup> Value"

text \<open>
  A Go map is a reference: records built from the same \<open>resMap\<close> variable share one
  map. The store keeps every allocated map under its address; \<open>Data\<close> of a result
  record is such an address, or \<open>None\<close> for a nil map.
\<close>

record heap =
  cells :: "nat \<Rightarrow> attrs"
  fresh :: nat

record CrtResult =
  Subtype :: string
  Result :: string
  Data :: "nat option"

definition empty_heap :: heap where
  "empty_heap = \<lparr>cells = (\<lambda>_. Map.empty), fresh = 0\<rparr>"

text \<open>\<open>make(map[string]interface{})\<close>: a new, empty map at an unused address.\<close>

definition make_map :: "heap \<Rightarrow> nat \<times> heap" where
  "make_map h = (fresh h, h\<lparr>cells := (cells h)(fresh h := Map.empty), fresh := Suc (fresh h)\<rparr>)"

text \<open>\<open>m[k] = v\<close> on the map at address \<open>a\<close>.\<close>

definition map_store :: "nat \<Rightarrow> string \<Rightarrow> Value \<Rightarrow> heap \<Rightarrow> heap" where
  "map_store a k v h = h\<lparr>cells := (cells h)(a := (cells h a)(k \<mapsto> v))\<rparr>"

section \<open>The Reporter's report shaping (parse\_and\_submit/parse\_and\_submit.go)\<close>

text \<open>
  \<open>processReportInfo\<close>. The machine field is decoded twice, first as a string, then as
  a struct; the second decoding overrides the first whenever it reports no error.
\<close>

definition processReportInfo ::
  "CkoTasksReportInfo option \<Rightarrow> heap \<Rightarrow> CrtResult list \<times> heap" where
  "processReportInfo i h =
     (case i of
        None \<Rightarrow> ([], h)
      | Some info \<Rightarrow>
          (let (err, s) = unmarshal_string (Machine info) '''';
               machineString = (if err \<noteq> None \<or> s = '''' then ''FAILED'' else s);
               (err2, mStruct) = unmarshal_Machine (Machine info) \<lparr>mach_Name = ''''\<rparr>;
               machineString = (if err2 = None then mach_Name mStruct else machineString);
               (resMap, h1) = make_map h;
               h2 = map_store resMap ''started'' (VString (Started info)) h1;
               h3 = map_store resMap ''ended'' (VString (Ended info)) h2;
               h4 = map_store resMap ''analysis_id'' (VString (Itoa (info_Id info))) h3
           in ([\<lparr>Subtype = ''info'', Result = machineString, Data = Some resMap\<rparr>], h4)))"

text \<open>
  \<open>processReportSignatures\<close>. \<open>resMap\<close> is made once, before the loop; every iteration
  stores into it and puts its address into the record for that signature. The elements
  of the decoded slices are taken to be non-nil pointers.
\<close>

fun signatures_loop ::
  "nat \<Rightarrow> CkoTasksReportSignature list \<Rightarrow> heap \<Rightarrow> CrtResult list \<times> heap" where
  "signatures_loop resMap [] h = ([], h)"
| "signatures_loop resMap (sig # sigs) h =
     (let h1 = map_store resMap ''severity'' (VString (Itoa (Severity sig))) h;
          h2 = map_store resMap ''name'' (VString (sig_Name sig)) h1;
          r = \<lparr>Subtype = ''signature'', Result = Description sig, Data = Some resMap\<rparr>;
          (res, h3) = signatures_loop resMap sigs h2
      in (r # res, h3))"

definition processReportSignatures ::
  "CkoTasksReportSignature list option \<Rightarrow> heap \<Rightarrow> CrtResult list \<times> heap" where
  "processReportSignatures sigs h =
     (case sigs of
        None \<Rightarrow> ([], h)
      | Some ss \<Rightarrow> (let (resMap, h1) = make_map h in signatures_loop resMap ss h1))"

text \<open>
  \<open>processReportBehavior\<close>, first loop: one \<open>process\<close> record per process, all of them
  pointing to the one \<open>resMap\<close> made before the loop.
\<close>

fun processes_loop ::
  "nat \<Rightarrow> CkoTasksReportBhvPcs list \<Rightarrow> heap \<Rightarrow> CrtResult list \<times> heap" where
  "processes_loop resMap [] h = ([], h)"
| "processes_loop resMap (p # ps) h =
     (let h1 = map_store resMap ''process_id'' (VString (Itoa (pcs_Id p))) h;
          h2 = map_store resMap ''parent_id'' (VString (Itoa (ParentId p))) h1;
          h3 = map_store resMap ''first_seen'' (VString (FirstSeen p)) h2;
          r = \<lparr>Subtype = ''process'', Result = pcs_Name p, Data = Some resMap\<rparr>;
          (res, h4) = processes_loop resMap ps h3
      in (r # res, h4))"

text \<open>The attribute map of one API call, as the inner loop fills it.\<close>

definition call_attrs :: "string \<Rightarrow> CkoTasksReportBhvPcsCall \<Rightarrow> attrs" where
  "call_attrs procDescription c =
     [''category'' \<mapsto> VString (Category c),
      ''status'' \<mapsto> VBool (call_Status c),
      ''return'' \<mapsto> VString (Return c),
      ''timestamp'' \<mapsto> VString (Timestamp c),
      ''thread_id'' \<mapsto> VString (ThreadId c),
      ''repeated'' \<mapsto> VInt (Repeated c),
      ''api'' \<mapsto> VString (Api c),
      ''id'' \<mapsto> VInt (call_Id c),
      ''process'' \<mapsto> VString procDescription,
      ''arguments'' \<mapsto> VArguments (Arguments c)]"

text \<open>
  Second loop, inner part: the calls of one process. \<open>pushCounter\<close> is threaded through;
  the \<open>break\<close> leaves the inner loop only, with the counter unchanged. Every call gets
  a map of its own.
\<close>

fun calls_loop ::
  "int \<Rightarrow> string \<Rightarrow> CkoTasksReportBhvPcsCall list \<Rightarrow> int \<Rightarrow> heap
     \<Rightarrow> CrtResult list \<times> int \<times> heap" where
  "calls_loop pushApiCallsMax procDescription [] pushCounter h = ([], pushCounter, h)"
| "calls_loop pushApiCallsMax procDescription (c # cs) pushCounter h =
     (if pushCounter \<ge> pushApiCallsMax then ([], pushCounter, h)
      else
        (let (resMap, h1) = make_map h;
             h2 = h1\<lparr>cells := (cells h1)(resMap := call_attrs procDescription c)\<rparr>;
             r = \<lparr>Subtype = ''api_call'', Result = Api c, Data = Some resMap\<rparr>;
             (res, n, h3) = calls_loop pushApiCallsMax procDescription cs (pushCounter + 1) h2
         in (r # res, n, h3)))"

text \<open>Second loop, outer part: every process is visited, also after the cap is reached.\<close>

definition procDescription :: "CkoTasksReportBhvPcs \<Rightarrow> string" where
  "procDescription p = pcs_Name p @ '' ('' @ Itoa (pcs_Id p) @ '')''"

fun api_calls_loop ::
  "int \<Rightarrow> CkoTasksReportBhvPcs list \<Rightarrow> int \<Rightarrow> heap \<Rightarrow> CrtResult list \<times> heap" where
  "api_calls_loop pushApiCallsMax [] pushCounter h = ([], h)"
| "api_calls_loop pushApiCallsMax (p # ps) pushCounter h =
     (let (res1, n, h1) = calls_loop pushApiCallsMax (procDescription p) (Calls p) pushCounter h;
          (res2, h2) = api_calls_loop pushApiCallsMax ps n h1
      in (res1 @ res2, h2))"

definition summary_record :: "string \<Rightarrow> string \<Rightarrow> CrtResult" where
  "summary_record subtype b = \<lparr>Subtype = subtype, Result = b, Data = None\<rparr>"

text \<open>
  The whole function. \<open>behavior.Summary.Files\<close> dereferences \<open>Summary\<close> without a nil
  check, after both loops have run.
\<close>

definition processReportBehavior ::
  "int \<Rightarrow> CkoTasksReportBehavior option \<Rightarrow> heap \<Rightarrow> panic + (CrtResult list \<times> heap)" where
  "processReportBehavior pushApiCallsMax behavior h =
     (case behavior of
        None \<Rightarrow> Inr ([], h)
      | Some b \<Rightarrow>
          (let (resMap, h0) = make_map h;
               (res1, h1) = processes_loop resMap (Processes b) h0;
               (res2, h2) = api_calls_loop pushApiCallsMax (Processes b) 0 h1
           in (case Summary b of
                 None \<Rightarrow> Inl NilDereference
               | Some s \<Rightarrow>
                   Inr (res1 @ res2
                          @ map (summary_record ''file'') (Files s)
                          @ map (summary_record ''registry_key'') (Keys s)
                          @ map (summary_record ''mutex'') (Mutexes s), h2))))"

text \<open>Vocabulary for statements about the shaped batch: its \<open>api_call\<close> records, and
  the calls of a behavior section in process-then-call order, each with its process.\<close>

definition api_call_records :: "CrtResult list \<Rightarrow> CrtResult list" where
  "api_call_records res = filter (\<lambda>r. Subtype r = ''api_call'') res"

definition calls_in_order ::
  "CkoTasksReportBehavior \<Rightarrow> (CkoTasksReportBhvPcs \<times> CkoTasksReportBhvPcsCall) list" where
  "calls_in_order b = concat (map (\<lambda>p. map (Pair p) (Calls p)) (Processes b))"

abbreviation machine_name :: "CkoTasksReportInfo \<Rightarrow> heap \<Rightarrow> json option \<Rightarrow> string list" where
  "machine_name i h m \<equiv> map Result (fst (processReportInfo (Some (i\<lparr>Machine := m\<rparr>)) h))"

section \<open>What a service does to the outside: the trace\<close>

text \<open>
  The form values the Repository client sends. The JSON text of a \<open>[]string\<close> (which
  \<open>json.Marshal\<close> cannot fail to produce) is kept as the list it encodes.
\<close>

datatype form_value = FText string | FArray "string list"

text \<open>The Sandbox status document (lib/cuckoo.go); every pointer field may be nil.\<close>

record CkoStatusTasks =
  Running :: int
  Pending :: int

record CkoStatusSamples =
  Total :: int
  Free :: int
  Used :: int

record CkoStatusDiskspace =
  Analyses :: "CkoStatusSamples option"

record CkoStatus =
  Tasks :: "CkoStatusTasks option"
  Diskspace :: "CkoStatusDiskspace option"

text \<open>
  The observable actions, in the order they happen: bus publishes, acknowledgements
  (\<open>Ack(multiple)\<close>, \<open>Nack(multiple, requeue)\<close>) by delivery tag, the Feeder's slowdown
  log line, sleeps in seconds, a \<open>GetStatus\<close> call with the status pointer it returned,
  and the HTTP requests that carry data: a form post (URL, form), a multipart file post
  (URL, name of the file field, file name, file bytes, further fields) and a form patch
  (URL, headers, form). Other log lines are not part of the trace.
\<close>

datatype event =
    Published string string
  | Acked nat bool
  | Nacked nat bool bool
  | Info string
  | Slept nat
  | Polled "CkoStatus option"
  | HttpPostForm string "(string \<times> form_value) list"
  | HttpPostFile string string string string "(string \<times> string) list"
  | HttpPatchForm string "(string \<times> string) list" "(string \<times> form_value) list"

text \<open>
  The world a service acts on: the trace so far, and what the broker answers.
  \<open>publish_err q\<close> is the error \<open>Channel.Publish\<close> returns for routing key \<open>q\<close>,
  \<open>declare_err q\<close> the error of opening a channel and declaring queue \<open>q\<close>.
\<close>

record world =
  trace :: "event list"
  publish_err :: "string \<Rightarrow> string option"
  declare_err :: "string \<Rightarrow> string option"

definition emit :: "event \<Rightarrow> 'a world_scheme \<Rightarrow> 'a world_scheme" where
  "emit e w = w\<lparr>trace := trace w @ [e]\<rparr>"

text \<open>What the transport and the server do with one HTTP request.\<close>

datatype http_reply = TransportError string | ReadError string | Reply int string

section \<open>The shared core (package lib, \<open>Core\<close> and \<open>QueueHandler\<close>)\<close>

record Delivery =
  RoutingKey :: string
  Body :: string
  DeliveryTag :: nat

record FailedMsg =
  Service :: string
  Queue :: string
  Error :: string
  Desc :: string
  Msg :: string

record CritsData =
  CritsURL :: string
  AnalysisId :: string
  ObjectType :: string
  ObjectId :: string
  Username :: string
  ApiKey :: string
  MD5 :: string
  Source :: string

text \<open>\<open>Core\<close>: the service name and the name of the queue behind \<open>c.failed\<close>.\<close>

record Core =
  ServiceName :: string
  failed :: string

text \<open>\<open>FailOnError\<close> panics with \<open>msg: err\<close> when the error is not nil.\<close>

definition FailOnError :: "string option \<Rightarrow> string \<Rightarrow> panic option" where
  "FailOnError err msg =
     (case err of None \<Rightarrow> None | Some e \<Rightarrow> Some (Fatal (msg @ '': '' @ e @ [CHR 0x0A])))"

text \<open>\<open>SetupQueue\<close>: opens a channel and declares the durable queue.\<close>

definition SetupQueue :: "string \<Rightarrow> 'a world_scheme \<Rightarrow> panic \<times> 'a world_scheme + 'a world_scheme" where
  "SetupQueue queue w =
     (case FailOnError (declare_err w queue) ''Failed to declare queue'' of
        Some p \<Rightarrow> Inl (p, w)
      | None \<Rightarrow> Inr w)"

text \<open>\<open>QueueHandler.Send\<close>: publishes to the handler's queue; a refused publish is fatal.\<close>

definition Send :: "string \<Rightarrow> string \<Rightarrow> 'a world_scheme \<Rightarrow> panic \<times> 'a world_scheme + 'a world_scheme" where
  "Send queue msg w =
     (case FailOnError (publish_err w queue) ''Failed to publish a message'' of
        Some p \<Rightarrow> Inl (p, w)
      | None \<Rightarrow> Inr (emit (Published queue msg) w))"

text \<open>
  \<open>NackOnError\<close>. \<open>marshal\<close> is \<open>json.Marshal\<close> on a \<open>FailedMsg\<close>; it cannot fail on a
  struct of five strings, so the warning after it never fires. The error text put into
  the envelope is that of the parameter \<open>err\<close> (the \<open>err\<close> declared by \<open>jm, err :=\<close> is
  in scope only after that statement). A failing \<open>Nack\<close> is only logged.
\<close>

definition NackOnError ::
  "(FailedMsg \<Rightarrow> string) \<Rightarrow> Core \<Rightarrow> string option \<Rightarrow> string \<Rightarrow> Delivery \<Rightarrow> 'a world_scheme
     \<Rightarrow> panic \<times> 'a world_scheme + bool \<times> 'a world_scheme" where
  "NackOnError marshal c err desc msg w =
     (case err of
        None \<Rightarrow> Inr (False, w)
      | Some e \<Rightarrow>
          (let jm = marshal \<lparr>Service = ServiceName c, Queue = RoutingKey msg, Error = e,
                             Desc = desc, Msg = Body msg\<rparr>
           in (case Send (failed c) jm w of
                 Inl pw \<Rightarrow> Inl pw
               | Inr w1 \<Rightarrow> Inr (True, emit (Nacked (DeliveryTag msg) False False) w1))))"

text \<open>
  \<open>FastGet\<close> and \<open>FastPostForm\<close>: body (nil on a transport or read error), status code
  and error, and the struct the body was decoded into. \<open>decode\<close> is \<open>json.Unmarshal\<close>
  into the zero value of the struct: its error and the struct afterwards.
\<close>

definition FastGet ::
  "(string \<Rightarrow> string option \<times> 'r) \<Rightarrow> 'r \<Rightarrow> http_reply \<Rightarrow> (string option \<times> int \<times> string option) \<times> 'r" where
  "FastGet decode r0 reply =
     (case reply of
        TransportError e \<Rightarrow> ((None, 0, Some e), r0)
      | ReadError e \<Rightarrow> ((None, 0, Some e), r0)
      | Reply status respBody \<Rightarrow> (let (err, r) = decode respBody in ((Some respBody, status, err), r)))"

definition FastPostForm ::
  "(string \<Rightarrow> string option \<times> 'r) \<Rightarrow> 'r \<Rightarrow> http_reply \<Rightarrow> (string option \<times> int \<times> string option) \<times> 'r" where
  "FastPostForm decode r0 reply =
     (case reply of
        TransportError e \<Rightarrow> ((None, 0, Some e), r0)
      | ReadError e \<Rightarrow> ((None, 0, Some e), r0)
      | Reply status respBody \<Rightarrow> (let (err, r) = decode respBody in ((Some respBody, status, err), r)))"

text \<open>\<open>fmt.Sprintf("%s", resp)\<close> for a byte slice: nothing for nil.\<close>

definition bytes_text :: "string option \<Rightarrow> string" where
  "bytes_text resp = (case resp of None \<Rightarrow> '''' | Some b \<Rightarrow> b)"

section \<open>The Repository client (package lib, \<open>CritsConn\<close>)\<close>

record CritsConn =
  crt_URL :: string
  crt_Data :: CritsData

record CrtDefaultResponse =
  ReturnCode :: int
  ErrorMsg :: string
  Message :: string
  resp_Id :: string
  resp_Type :: string

definition zero_response :: CrtDefaultResponse where
  "zero_response = \<lparr>ReturnCode = 0, ErrorMsg = '''', Message = '''', resp_Id = '''', resp_Type = ''''\<rparr>"

text \<open>
  The check that ends \<open>Log\<close>, \<open>AddResults\<close>, \<open>MarkAsRunning\<close> and \<open>MarkAsFinished\<close>:
  the error of \<open>FastPostForm\<close> first, then status, return code and error message.
\<close>

definition check_response ::
  "(string option \<times> int \<times> string option) \<times> CrtDefaultResponse \<Rightarrow> string option" where
  "check_response x =
     (case x of ((resp, status, err), r) \<Rightarrow>
        (case err of
           Some e \<Rightarrow> Some e
         | None \<Rightarrow>
             if status \<noteq> 200 \<or> ReturnCode r \<noteq> 0 \<or> ErrorMsg r \<noteq> ''''
             then Some (Itoa status @ '' - '' @ bytes_text resp)
             else None))"

definition context_fields :: "CritsData \<Rightarrow> (string \<times> form_value) list" where
  "context_fields d =
     [(''analysis_id'', FText (AnalysisId d)),
      (''object_type'', FText (ObjectType d)),
      (''object_id'', FText (ObjectId d)),
      (''username'', FText (Username d)),
      (''api_key'', FText (ApiKey d))]"

definition Log ::
  "(string \<Rightarrow> string option \<times> CrtDefaultResponse) \<Rightarrow> CritsConn \<Rightarrow> string \<Rightarrow> string \<Rightarrow> http_reply
     \<Rightarrow> 'a world_scheme \<Rightarrow> string option \<times> 'a world_scheme" where
  "Log decode crt level msg reply w =
     (let data = [(''log_level'', FText level), (''log_message'', FText msg)]
                  @ context_fields (crt_Data crt);
          w1 = emit (HttpPostForm (crt_URL crt) data) w
      in (check_response (FastPostForm decode zero_response reply), w1))"

text \<open>
  \<open>NewSample\<close>. The multipart body is written into a memory buffer, which does not
  fail; the fields of \<open>payload\<close> are listed in the order the source fills the map.
  There is no check of the HTTP status: the reply is judged by its decoded body alone.
\<close>

definition NewSample ::
  "(string \<Rightarrow> string option \<times> CrtDefaultResponse) \<Rightarrow> CritsConn \<Rightarrow> string \<Rightarrow> string
     \<Rightarrow> http_reply \<Rightarrow> http_reply \<Rightarrow> 'a world_scheme \<Rightarrow> (string + string) \<times> 'a world_scheme" where
  "NewSample decode crt fileData fileName log_reply reply w =
     (if length fileData = 0 then
        (let (_, w1) = Log decode crt ''info'' (''Empty dropped file: '' @ fileName) log_reply w
         in (Inl ''empty file'', w1))
      else
        (let payload = [(''username'', Username (crt_Data crt)),
                        (''api_key'', ApiKey (crt_Data crt)),
                        (''source'', Source (crt_Data crt)),
                        (''upload_type'', ''file''),
                        (''file_format'', ''raw'')];
             w1 = emit (HttpPostFile (crt_URL crt @ ''/api/v1/samples/'') ''filedata''
                          fileName fileData payload) w
         in (case reply of
               TransportError e \<Rightarrow> (Inl e, w1)
             | ReadError e \<Rightarrow> (Inl e, w1)
             | Reply status respBody \<Rightarrow>
                 (case decode respBody of
                    (Some e, r) \<Rightarrow> (Inl e, w1)
                  | (None, r) \<Rightarrow>
                      if ReturnCode r \<noteq> 0 \<or> ErrorMsg r \<noteq> '''' then (Inl respBody, w1)
                      else (Inr (resp_Id r), w1)))))"

text \<open>
  \<open>ForgeRelationship\<close>: again no check of the status, and one tolerated message. Of the
  headers, \<open>Content-Length\<close> (the length of the encoded form) is left out.
\<close>

definition ForgeRelationship ::
  "(string \<Rightarrow> string option \<times> CrtDefaultResponse) \<Rightarrow> CritsConn \<Rightarrow> string \<Rightarrow> http_reply
     \<Rightarrow> 'a world_scheme \<Rightarrow> string option \<times> 'a world_scheme" where
  "ForgeRelationship decode crt ident reply w =
     (let data = [(''action'', FText ''forge_relationship''),
                  (''right_type'', FText ''Sample''),
                  (''right_id'', FText ident),
                  (''rel_type'', FText ''Related To'')];
          headers = [(''Authorization'',
                        ''ApiKey '' @ Username (crt_Data crt) @ '':'' @ ApiKey (crt_Data crt)),
                     (''Content-Type'', ''application/x-www-form-urlencoded'')];
          w1 = emit (HttpPatchForm
                       (crt_URL crt @ ''/api/v1/samples/'' @ ObjectId (crt_Data crt) @ ''/'')
                       headers data) w
      in (case reply of
            TransportError e \<Rightarrow> (Some e, w1)
          | ReadError e \<Rightarrow> (Some e, w1)
          | Reply status respBody \<Rightarrow>
              (case decode respBody of
                 (Some e, r) \<Rightarrow> (Some (e @ '' : '' @ respBody), w1)
               | (None, r) \<Rightarrow>
                   if (ReturnCode r \<noteq> 0 \<and> Message r \<noteq> ''Relationship already exists'')
                      \<or> ErrorMsg r \<noteq> ''''
                   then (Some respBody, w1)
                   else (None, w1))))"

text \<open>
  \<open>AddResults\<close>, the conversion loop inside the loop over the batch: every value of the
  map that is a \<open>bool\<close> is replaced, under its key, by the text of \<open>FormatBool\<close>. Ranging
  over a Go map visits every key once and the body only overwrites the visited key, so
  the loop is this pointwise change of the map.
\<close>

definition stringify_bools :: "attrs \<Rightarrow> attrs" where
  "stringify_bools m =
     (\<lambda>k. case m k of Some (VBool b) \<Rightarrow> Some (VString (FormatBool b)) | v \<Rightarrow> v)"

text \<open>
  The loop over the batch. \<open>marshal\<close> is \<open>json.Marshal\<close> on an attribute map, which may
  fail; the function then returns that error, with the maps converted so far left
  converted. The maps are changed in place, so the store is returned as well.
\<close>

fun AddResults_loop ::
  "(attrs \<Rightarrow> string + string) \<Rightarrow> CrtResult list \<Rightarrow> heap
     \<Rightarrow> string list \<times> string list \<times> string list
     \<Rightarrow> (string + string list \<times> string list \<times> string list) \<times> heap" where
  "AddResults_loop marshal [] h arrs = (Inr arrs, h)"
| "AddResults_loop marshal (r # rs) h (arrResult, arrResultType, arrResultSubtype) =
     (case Data r of
        None \<Rightarrow>
          AddResults_loop marshal rs h
            (arrResult @ [Result r], arrResultType @ [''{}''], arrResultSubtype @ [Subtype r])
      | Some a \<Rightarrow>
          (let h1 = h\<lparr>cells := (cells h)(a := stringify_bools (cells h a))\<rparr>
           in (case marshal (cells h1 a) of
                 Inl err \<Rightarrow> (Inl err, h1)
               | Inr rtJson \<Rightarrow>
                   AddResults_loop marshal rs h1
                     (arrResult @ [Result r], arrResultType @ [rtJson],
                      arrResultSubtype @ [Subtype r]))))"

text \<open>
  \<open>AddResults\<close>: nothing is sent for an empty (or nil) batch; otherwise one form post
  with the three arrays and the context. The result is the returned error, the store,
  and the world with the request in its trace if one was made.
\<close>

definition AddResults ::
  "(string \<Rightarrow> string option \<times> CrtDefaultResponse) \<Rightarrow> (attrs \<Rightarrow> string + string) \<Rightarrow> CritsConn
     \<Rightarrow> CrtResult list \<Rightarrow> heap \<Rightarrow> http_reply \<Rightarrow> 'a world_scheme
     \<Rightarrow> string option \<times> heap \<times> 'a world_scheme" where
  "AddResults decode marshal crt results h reply w =
     (if length results = 0 then (None, h, w)
      else
        (case AddResults_loop marshal results h ([], [], []) of
           (Inl err, h1) \<Rightarrow> (Some err, h1, w)
         | (Inr (arrResult, arrResultType, arrResultSubtype), h1) \<Rightarrow>
             (let data = [(''result_is_batch'', FText ''true''),
                          (''result'', FArray arrResult),
                          (''result_subtype'', FArray arrResultSubtype),
                          (''result_type'', FArray arrResultType)]
                         @ context_fields (crt_Data crt);
                  w1 = emit (HttpPostForm (crt_URL crt @ ''/api/v1/services/'') data) w
              in (check_response (FastPostForm decode zero_response reply), h1, w1))))"

text \<open>\<open>MarkAsRunning\<close> and \<open>MarkAsFinished\<close> differ in the value of \<open>finish\<close> only.\<close>

definition MarkAsRunning ::
  "(string \<Rightarrow> string option \<times> CrtDefaultResponse) \<Rightarrow> CritsConn \<Rightarrow> http_reply
     \<Rightarrow> 'a world_scheme \<Rightarrow> string option \<times> 'a world_scheme" where
  "MarkAsRunning decode crt reply w =
     (let data = [(''finish'', FText ''0'')] @ context_fields (crt_Data crt);
          w1 = emit (HttpPostForm (crt_URL crt @ ''/api/v1/services/'') data) w
      in (check_response (FastPostForm decode zero_response reply), w1))"

definition MarkAsFinished ::
  "(string \<Rightarrow> string option \<times> CrtDefaultResponse) \<Rightarrow> CritsConn \<Rightarrow> http_reply
     \<Rightarrow> 'a world_scheme \<Rightarrow> string option \<times> 'a world_scheme" where
  "MarkAsFinished decode crt reply w =
     (let data = [(''finish'', FText ''1'')] @ context_fields (crt_Data crt);
          w1 = emit (HttpPostForm (crt_URL crt @ ''/api/v1/services/'') data) w
      in (check_response (FastPostForm decode zero_response reply), w1))"

section \<open>The Sandbox client's status call (package lib, \<open>CuckooConn\<close>)\<close>

definition zero_status :: CkoStatus where
  "zero_status = \<lparr>Tasks = None, Diskspace = None\<rparr>"

text \<open>
  \<open>GetStatus\<close>: the status pointer and the error. On any error, or a status other than
  200, the pointer is nil. Inside that branch \<open>err.Error()\<close> is called whenever a body was
  read, also when \<open>err\<close> is nil (a reply that decodes, with a status other than 200):
  a method call on a nil interface, which panics.
\<close>

definition GetStatus ::
  "(string \<Rightarrow> string option \<times> CkoStatus) \<Rightarrow> http_reply \<Rightarrow> panic + CkoStatus option \<times> string option" where
  "GetStatus decode reply =
     (case FastGet decode zero_status reply of
        ((resp, status, err), r) \<Rightarrow>
          if err \<noteq> None \<or> status \<noteq> 200 then
            (case resp of
               Some body \<Rightarrow>
                 (case err of
                    None \<Rightarrow> Inl NilDereference
                  | Some e \<Rightarrow> Inr (None, Some (e @ '' -> ['' @ Itoa status @ ''] '' @ body)))
             | None \<Rightarrow> Inr (None, err))
          else Inr (Some r, None))"

section \<open>The Feeder (feed\_cuckoo/feed\_cuckoo.go)\<close>

record DistributedCuckooReq =
  Payload :: "(string \<times> string) list"
  File :: "string \<rightharpoonup> string"
  req_CritsData :: "CritsData option"

record FeedCuckooReq =
  TaskId :: int
  CuckooURL :: string
  fc_CritsData :: "CritsData option"

text \<open>The Feeder's globals, set once from the configuration in \<open>main\<close>.\<close>

record feeder =
  core :: Core
  cuckoo_URL :: string
  producer :: string
  checkFreeSpace :: bool
  maxPending :: int

text \<open>Indexing a \<open>map[string]string\<close>: the empty string for a missing key.\<close>

definition index_map :: "(string \<rightharpoonup> string) \<Rightarrow> string \<Rightarrow> string" where
  "index_map m k = (case m k of None \<Rightarrow> '''' | Some v \<Rightarrow> v)"

text \<open>Go's integer division truncates towards zero.\<close>

definition quo :: "int \<Rightarrow> int \<Rightarrow> int" where
  "quo a b = sgn a * sgn b * (\<bar>a\<bar> div \<bar>b\<bar>)"

text \<open>
  The condition of the admission loop, evaluated left to right as Go does: the
  dereferences of \<open>cStatus\<close> and \<open>cStatus.Tasks\<close> come first; the disk space is read only
  if the pending count is below the limit and \<open>checkFreeSpace\<close> is set.
\<close>

definition slowdown_cond :: "feeder \<Rightarrow> CkoStatus option \<Rightarrow> panic + bool" where
  "slowdown_cond f cStatus =
     (case cStatus of
        None \<Rightarrow> Inl NilDereference
      | Some st \<Rightarrow>
          (case Tasks st of
             None \<Rightarrow> Inl NilDereference
           | Some t \<Rightarrow>
               if Pending t \<ge> maxPending f then Inr True
               else if checkFreeSpace f then
                 (case Diskspace st of
                    None \<Rightarrow> Inl NilDereference
                  | Some d \<Rightarrow>
                      (case Analyses d of
                         None \<Rightarrow> Inl NilDereference
                       | Some a \<Rightarrow> Inr (Free a \<le> 256 * 1024 * 1024)))
               else Inr False))"

text \<open>
  The arguments of the slowdown line are evaluated before it is printed: the pending
  count and, whatever \<open>checkFreeSpace\<close> says, \<open>cStatus.Diskspace.Analyses.Free\<close>.
\<close>

definition slowdown_line :: "CkoStatus option \<Rightarrow> panic + string" where
  "slowdown_line cStatus =
     (case cStatus of
        None \<Rightarrow> Inl NilDereference
      | Some st \<Rightarrow>
          (case Tasks st of
             None \<Rightarrow> Inl NilDereference
           | Some t \<Rightarrow>
               (case Diskspace st of
                  None \<Rightarrow> Inl NilDereference
                | Some d \<Rightarrow>
                    (case Analyses d of
                       None \<Rightarrow> Inl NilDereference
                     | Some a \<Rightarrow>
                         Inr (''Slowdown: '' @ Itoa (Pending t) @ '' pending jobs, ''
                              @ Itoa (quo (quo (Free a) 1024) 1024) @ '' MB free space'')))))"

text \<open>
  How a run over a finite prefix of the environment's answers ends: the code returned,
  it panicked, or it is still waiting for the next answer.
\<close>

datatype ending = Returned | Panicked panic | Waiting

text \<open>
  The admission loop of \<open>handleSubmit\<close>. \<open>replies\<close> are the answers the Sandbox will give
  to the coming status requests, in order. The error of \<open>GetStatus\<close> is dropped.
\<close>

fun admission_loop ::
  "feeder \<Rightarrow> (string \<Rightarrow> string option \<times> CkoStatus) \<Rightarrow> CkoStatus option \<Rightarrow> http_reply list
     \<Rightarrow> 'a world_scheme \<Rightarrow> ending \<times> 'a world_scheme" where
  "admission_loop f decode cStatus replies w =
     (case slowdown_cond f cStatus of
        Inl p \<Rightarrow> (Panicked p, w)
      | Inr False \<Rightarrow> (Returned, w)
      | Inr True \<Rightarrow>
          (case slowdown_line cStatus of
             Inl p \<Rightarrow> (Panicked p, w)
           | Inr line \<Rightarrow>
               (let w1 = emit (Slept 30) (emit (Info line) w)
                in (case replies of
                      [] \<Rightarrow> (Waiting, w1)
                    | reply # rest \<Rightarrow>
                        (case GetStatus decode reply of
                           Inl p \<Rightarrow> (Panicked p, w1)
                         | Inr (st, err) \<Rightarrow>
                             admission_loop f decode st rest (emit (Polled st) w1))))))"

declare admission_loop.simps [simp del]

text \<open>
  \<open>handleSubmit\<close>, from the upload on. \<open>newtask\<close> is what \<open>NewTask\<close> returns for the
  upload (an error or the task id); \<open>marshal\<close> encodes the envelope for the failed queue
  and \<open>marshal_req\<close> the task handle (a struct of an int, a string and strings, which
  cannot fail to encode, so the second \<open>NackOnError\<close> never fires).
\<close>

definition upload ::
  "feeder \<Rightarrow> (FailedMsg \<Rightarrow> string) \<Rightarrow> (FeedCuckooReq \<Rightarrow> string) \<Rightarrow> DistributedCuckooReq
     \<Rightarrow> string \<Rightarrow> Delivery \<Rightarrow> string + int \<Rightarrow> 'a world_scheme \<Rightarrow> ending \<times> 'a world_scheme" where
  "upload f marshal marshal_req m fileBytes msg newtask w1 =
     (let w2 = emit (HttpPostFile (cuckoo_URL f @ ''/tasks/create/file'') ''file''
                       (index_map (File m) ''name'') fileBytes (Payload m)) w1;
          (ident, err) = (case newtask of Inl e \<Rightarrow> (0, Some e) | Inr n \<Rightarrow> (n, None))
      in (case NackOnError marshal (core f) err ''Uploading sample to cuckoo failed!'' msg w2 of
            Inl (p, w3) \<Rightarrow> (Panicked p, w3)
          | Inr (True, w3) \<Rightarrow> (Returned, w3)
          | Inr (False, w3) \<Rightarrow>
              (case Send (producer f)
                      (marshal_req \<lparr>TaskId = ident, CuckooURL = cuckoo_URL f,
                                    fc_CritsData = req_CritsData m\<rparr>) w3 of
                 Inl (p, w4) \<Rightarrow> (Panicked p, w4)
               | Inr w4 \<Rightarrow> (Returned, emit (Acked (DeliveryTag msg) False) w4))))"

text \<open>
  \<open>handleSubmit\<close>: the first status request, the admission loop, then the upload.
  With no answer from the Sandbox yet, the run is waiting.
\<close>

definition handleSubmit ::
  "feeder \<Rightarrow> (string \<Rightarrow> string option \<times> CkoStatus) \<Rightarrow> (FailedMsg \<Rightarrow> string)
     \<Rightarrow> (FeedCuckooReq \<Rightarrow> string) \<Rightarrow> DistributedCuckooReq \<Rightarrow> string \<Rightarrow> Delivery
     \<Rightarrow> http_reply list \<Rightarrow> string + int \<Rightarrow> 'a world_scheme \<Rightarrow> ending \<times> 'a world_scheme" where
  "handleSubmit f decode marshal marshal_req m fileBytes msg replies newtask w =
     (case replies of
        [] \<Rightarrow> (Waiting, w)
      | reply # rest \<Rightarrow>
          (case GetStatus decode reply of
             Inl p \<Rightarrow> (Panicked p, w)
           | Inr (cStatus, err) \<Rightarrow>
               (case admission_loop f decode cStatus rest (emit (Polled cStatus) w) of
                  (Panicked p, w1) \<Rightarrow> (Panicked p, w1)
                | (Waiting, w1) \<Rightarrow> (Waiting, w1)
                | (Returned, w1) \<Rightarrow> upload f marshal marshal_req m fileBytes msg newtask w1)))"

section \<open>The Overseer (\<open>parseMsg\<close>, \<open>handleFailed\<close>, \<open>resubmit\<close>, \<open>dumpMsg\<close>)\<close>

record genericMsg =
  gm_CritsData :: "CritsData option"
  gm_CritsDataJ :: "CritsData option"

text \<open>
  The library functions the Overseer calls: \<open>json.Unmarshal\<close> into a \<open>FailedMsg\<close> and
  into a \<open>genericMsg\<close> (\<open>None\<close> for an error) and \<open>strconv.Unquote\<close>.
\<close>

record codec =
  unmarshal_FailedMsg :: "string \<Rightarrow> FailedMsg option"
  unmarshal_genericMsg :: "string \<Rightarrow> genericMsg option"
  Unquote :: "string \<Rightarrow> string option"

text \<open>
  The Overseer's globals on top of the world: the failure counters, the cached
  producers (by queue name), and the dump directory. A dump file
  \<open>dumpDir/<seconds>_<counter>\<close> is kept under the pair of its two numbers; \<open>open_err\<close>
  and \<open>write_err\<close> are what \<open>os.OpenFile\<close> and \<open>Write\<close> answer there.
\<close>

record overseer = world +
  failedMap :: "string \<rightharpoonup> int"
  producers :: "string list"
  dump_files :: "((int \<times> nat) \<times> string) list"
  open_err :: "string option"
  write_err :: "string option"

text \<open>The loop of \<open>dumpMsg\<close>: the first counter whose file does not exist yet.\<close>

function dump_counter :: "((int \<times> nat) \<times> string) list \<Rightarrow> int \<Rightarrow> nat \<Rightarrow> nat" where
  "dump_counter fs now counter =
     (if (now, counter) \<in> fst ` set fs then dump_counter fs now (counter + 1) else counter)"
  by pat_completeness auto
termination
proof (relation "measure (\<lambda>(fs, now, counter). Suc (Max (insert 0 (snd ` fst ` set fs))) - counter)")
  show "wf (measure (\<lambda>(fs, now, counter). Suc (Max (insert 0 (snd ` fst ` set fs))) - counter))"
    by simp
next
  fix fs :: "((int \<times> nat) \<times> string) list" and now :: int and counter :: nat
  assume "(now, counter) \<in> fst ` set fs"
  then have "counter \<in> insert 0 (snd ` fst ` set fs)"
    by force
  then have "counter \<le> Max (insert 0 (snd ` fst ` set fs))"
    by (intro Max_ge) auto
  then show "((fs, now, counter + 1), (fs, now, counter))
      \<in> measure (\<lambda>(fs, now, counter). Suc (Max (insert 0 (snd ` fst ` set fs))) - counter)"
    by simp
qed

declare dump_counter.simps [simp del]

text \<open>
  \<open>dumpMsg\<close>: \<open>OpenFile\<close> creates the file, \<open>Write\<close> fills it with the body of the
  delivery (the whole envelope), then the delivery is acknowledged.
\<close>

definition dumpMsg :: "int \<Rightarrow> Delivery \<Rightarrow> 'a overseer_scheme \<Rightarrow> panic \<times> 'a overseer_scheme + 'a overseer_scheme" where
  "dumpMsg now msg s =
     (let fileName = (now, dump_counter (dump_files s) now 0)
      in (case FailOnError (open_err s) ''Couldn't create new file!'' of
            Some p \<Rightarrow> Inl (p, s)
          | None \<Rightarrow>
              (case FailOnError (write_err s) ''Couldn't write to the file!'' of
                 Some p \<Rightarrow> Inl (p, s\<lparr>dump_files := dump_files s @ [(fileName, '''')]\<rparr>)
               | None \<Rightarrow>
                   Inr (emit (Acked (DeliveryTag msg) False)
                          (s\<lparr>dump_files := dump_files s @ [(fileName, Body msg)]\<rparr>)))))"

text \<open>\<open>resubmit\<close>: always returns a nil error, so only a panic or the new state is left.\<close>

definition resubmit :: "codec \<Rightarrow> FailedMsg \<Rightarrow> Delivery \<Rightarrow> 'a overseer_scheme \<Rightarrow> panic \<times> 'a overseer_scheme + 'a overseer_scheme" where
  "resubmit cd failedmsg msg st =
     (let s = (case Unquote cd (Msg failedmsg) of Some u \<Rightarrow> u | None \<Rightarrow> Msg failedmsg)
      in (case (if Queue failedmsg \<in> set (producers st) then Inr st
                else (case SetupQueue (Queue failedmsg) st of
                        Inl pw \<Rightarrow> Inl pw
                      | Inr st1 \<Rightarrow> Inr (st1\<lparr>producers := producers st1 @ [Queue failedmsg]\<rparr>))) of
            Inl pw \<Rightarrow> Inl pw
          | Inr st2 \<Rightarrow> Send (Queue failedmsg) s st2))"

text \<open>The analysis id a decoded payload is counted under: \<open>CritsData\<close> before \<open>crits_data\<close>.\<close>

definition analysis_id :: "genericMsg \<Rightarrow> string option" where
  "analysis_id payload =
     (case gm_CritsData payload of
        Some d \<Rightarrow> Some (AnalysisId d)
      | None \<Rightarrow>
          (case gm_CritsDataJ payload of
             Some d \<Rightarrow> Some (AnalysisId d)
           | None \<Rightarrow> None))"

text \<open>
  Reading \<open>failedMap[aid]\<close> (zero for a missing key), and the three statements that
  count a failure: set a missing counter to zero, then add one. The counters are Go
  \<open>int\<close>s; they are kept as integers, since a counter grows by one per delivery and
  stays far below the 64-bit limit.
\<close>

definition counter_of :: "(string \<rightharpoonup> int) \<Rightarrow> string \<Rightarrow> int" where
  "counter_of fm aid = (case fm aid of None \<Rightarrow> 0 | Some c \<Rightarrow> c)"

definition count_failure :: "(string \<rightharpoonup> int) \<Rightarrow> string \<Rightarrow> (string \<rightharpoonup> int)" where
  "count_failure fm aid =
     (let fm1 = (if fm aid = None then fm(aid \<mapsto> 0) else fm)
      in fm1(aid \<mapsto> counter_of fm1 aid + 1))"

text \<open>
  \<open>handleFailed\<close>, run to its end for one delivery (the source starts it as a goroutine;
  here the deliveries are handled one after the other). \<open>now\<close> is the clock reading
  \<open>dumpMsg\<close> takes.
\<close>

definition handleFailed :: "codec \<Rightarrow> int \<Rightarrow> FailedMsg \<Rightarrow> Delivery \<Rightarrow> 'a overseer_scheme \<Rightarrow> panic \<times> 'a overseer_scheme + 'a overseer_scheme" where
  "handleFailed cd now failedmsg msg s =
     (case unmarshal_genericMsg cd (Msg failedmsg) of
        None \<Rightarrow> dumpMsg now msg s
      | Some payload \<Rightarrow>
          (case analysis_id payload of
             None \<Rightarrow> dumpMsg now msg s
           | Some aid \<Rightarrow>
               (let s1 = s\<lparr>failedMap := count_failure (failedMap s) aid\<rparr>
                in if counter_of (failedMap s1) aid > 3 then dumpMsg now msg s1
                   else
                     (case resubmit cd failedmsg msg (emit (Slept 60) s1) of
                        Inl pw \<Rightarrow> Inl pw
                      | Inr s2 \<Rightarrow> Inr (emit (Acked (DeliveryTag msg) False) s2)))))"

definition parseMsg :: "codec \<Rightarrow> int \<Rightarrow> Delivery \<Rightarrow> 'a overseer_scheme \<Rightarrow> panic \<times> 'a overseer_scheme + 'a overseer_scheme" where
  "parseMsg cd now msg s =
     (case unmarshal_FailedMsg cd (Body msg) of
        None \<Rightarrow> dumpMsg now msg s
      | Some m \<Rightarrow> handleFailed cd now m msg s)"

text \<open>The consumer: the deliveries, each with the clock reading at its handling, in order.\<close>

fun consume :: "codec \<Rightarrow> (int \<times> Delivery) list \<Rightarrow> 'a overseer_scheme \<Rightarrow> panic \<times> 'a overseer_scheme + 'a overseer_scheme" where
  "consume cd [] s = Inr s"
| "consume cd ((now, msg) # rest) s =
     (case parseMsg cd now msg s of
        Inl pw \<Rightarrow> Inl pw
      | Inr s1 \<Rightarrow> consume cd rest s1)"

text \<open>Two states of the Overseer whose broker and dump directory answer alike.\<close>

definition same_env :: "'a overseer_scheme \<Rightarrow> 'a overseer_scheme \<Rightarrow> bool" where
  "same_env s s' \<longleftrightarrow> publish_err s' = publish_err s \<and> declare_err s' = declare_err s \<and>
     open_err s' = open_err s \<and> write_err s' = write_err s"

text \<open>The analysis id a delivery carries, if its envelope and the embedded body decode
  and a RepositoryContext is present.\<close>

definition carried_id :: "codec \<Rightarrow> Delivery \<Rightarrow> string option" where
  "carried_id cd msg =
     (case unmarshal_FailedMsg cd (Body msg) of
        None \<Rightarrow> None
      | Some m \<Rightarrow>
          (case unmarshal_genericMsg cd (Msg m) of
             None \<Rightarrow> None
           | Some payload \<Rightarrow> analysis_id payload))"

section \<open>Properties of the report shaping\<close>

subsection \<open>API call records and the global cap\<close>

text \<open>
  The inner loop emits, for the calls of one process, a prefix of them: as many as the
  cap still allows. Every emitted record points to a map of its own, allocated at the
  next unused address, and maps allocated earlier are left as they were.
\<close>

lemma calls_loop_spec:
  "calls_loop mx pd cs n h = (res, n', h') \<Longrightarrow>
     length res = min (length cs) (nat (mx - n)) \<and>
     n' = n + int (length res) \<and>
     fresh h' = fresh h + length res \<and>
     (\<forall>a. a < fresh h \<longrightarrow> cells h' a = cells h a) \<and>
     (\<forall>i<length res.
        res ! i = \<lparr>Subtype = ''api_call'', Result = Api (cs ! i), Data = Some (fresh h + i)\<rparr> \<and>
        cells h' (fresh h + i) = call_attrs pd (cs ! i))"
proof (induction cs arbitrary: n h res n' h')
  case Nil
  then show ?case by simp
next
  case (Cons c cs)
  show ?case
  proof (cases "n \<ge> mx")
    case True
    with Cons.prems show ?thesis by simp
  next
    case False
    let ?h2 = "(snd (make_map h))\<lparr>cells := (cells (snd (make_map h)))(fresh h := call_attrs pd c)\<rparr>"
    obtain res0 n0 h0 where rec: "calls_loop mx pd cs (n + 1) ?h2 = (res0, n0, h0)"
      by (metis prod_cases3)
    have res: "res = \<lparr>Subtype = ''api_call'', Result = Api c, Data = Some (fresh h)\<rparr> # res0"
      and n': "n' = n0" and h': "h' = h0"
      using Cons.prems False rec by (simp_all add: make_map_def Let_def split: prod.splits)
    have f2: "fresh ?h2 = Suc (fresh h)" and c2: "cells ?h2 = (cells h)(fresh h := call_attrs pd c)"
      by (simp_all add: make_map_def)
    note IH = Cons.IH [OF rec, unfolded f2 c2]
    have len: "length res = min (length (c # cs)) (nat (mx - n))"
      using IH False res by (simp add: min_def) linarith
    have cnt: "n' = n + int (length res)" using IH res n' by simp
    have fr: "fresh h' = fresh h + length res" using IH res h' by simp
    have old: "\<forall>a. a < fresh h \<longrightarrow> cells h' a = cells h a" using IH h' by simp
    have here: "cells h' (fresh h) = call_attrs pd c" using IH h' by simp
    have each: "\<forall>i<length res.
        res ! i = \<lparr>Subtype = ''api_call'', Result = Api ((c # cs) ! i), Data = Some (fresh h + i)\<rparr> \<and>
        cells h' (fresh h + i) = call_attrs pd ((c # cs) ! i)"
    proof (intro allI impI)
      fix i assume i: "i < length res"
      show "res ! i = \<lparr>Subtype = ''api_call'', Result = Api ((c # cs) ! i), Data = Some (fresh h + i)\<rparr> \<and>
        cells h' (fresh h + i) = call_attrs pd ((c # cs) ! i)"
      proof (cases i)
        case 0
        then show ?thesis using res here by simp
      next
        case (Suc j)
        then have "j < length res0" using i res by simp
        then show ?thesis using IH Suc res h' by simp
      qed
    qed
    show ?thesis using len cnt fr old each by blast
  qed
qed

text \<open>The outer loop: the same, over the calls of all processes in order.\<close>

lemma api_calls_loop_spec:
  "api_calls_loop mx ps n h = (res, h') \<Longrightarrow>
     length res = min (length (concat (map (\<lambda>p. map (Pair p) (Calls p)) ps))) (nat (mx - n)) \<and>
     fresh h' = fresh h + length res \<and>
     (\<forall>a. a < fresh h \<longrightarrow> cells h' a = cells h a) \<and>
     (\<forall>i<length res.
        res ! i = \<lparr>Subtype = ''api_call'',
                   Result = Api (snd (concat (map (\<lambda>p. map (Pair p) (Calls p)) ps) ! i)),
                   Data = Some (fresh h + i)\<rparr> \<and>
        cells h' (fresh h + i) =
          call_attrs (procDescription (fst (concat (map (\<lambda>p. map (Pair p) (Calls p)) ps) ! i)))
            (snd (concat (map (\<lambda>p. map (Pair p) (Calls p)) ps) ! i)))"
proof (induction ps arbitrary: n h res h')
  case Nil
  then show ?case by simp
next
  case (Cons p ps)
  let ?rest = "concat (map (\<lambda>p. map (Pair p) (Calls p)) ps)"
  let ?here = "map (Pair p) (Calls p)"
  obtain res1 n1 h1 where c: "calls_loop mx (procDescription p) (Calls p) n h = (res1, n1, h1)"
    by (metis prod_cases3)
  obtain res2 h2 where r: "api_calls_loop mx ps n1 h1 = (res2, h2)"
    by (metis surj_pair)
  have res: "res = res1 @ res2" and h': "h' = h2"
    using Cons.prems c r by simp_all
  note C = calls_loop_spec [OF c]
  note R = Cons.IH [OF r]
  have l1: "length res1 = min (length (Calls p)) (nat (mx - n))" using C by simp
  have n1: "n1 = n + int (length res1)" using C by simp
  have f1: "fresh h1 = fresh h + length res1" using C by simp
  have l2: "length res2 = min (length ?rest) (nat (mx - n1))" using R by simp
  have short: "length res1 < length (Calls p) \<Longrightarrow> res2 = []"
    using l1 l2 n1 by (cases "mx - n \<ge> 0") auto
  have len: "length res = min (length (concat (map (\<lambda>p. map (Pair p) (Calls p)) (p # ps)))) (nat (mx - n))"
    using l1 l2 n1 res by (auto simp: min_def)
  have fr: "fresh h' = fresh h + length res" using R f1 res h' by simp
  have old: "\<forall>a. a < fresh h \<longrightarrow> cells h' a = cells h a"
    using C R f1 h' by simp
  have each: "\<forall>i<length res.
        res ! i = \<lparr>Subtype = ''api_call'',
                   Result = Api (snd (concat (map (\<lambda>p. map (Pair p) (Calls p)) (p # ps)) ! i)),
                   Data = Some (fresh h + i)\<rparr> \<and>
        cells h' (fresh h + i) =
          call_attrs (procDescription (fst (concat (map (\<lambda>p. map (Pair p) (Calls p)) (p # ps)) ! i)))
            (snd (concat (map (\<lambda>p. map (Pair p) (Calls p)) (p # ps)) ! i))"
  proof (intro allI impI)
    fix i assume i: "i < length res"
    have cc: "concat (map (\<lambda>p. map (Pair p) (Calls p)) (p # ps)) = ?here @ ?rest" by simp
    show "res ! i = \<lparr>Subtype = ''api_call'',
                   Result = Api (snd (concat (map (\<lambda>p. map (Pair p) (Calls p)) (p # ps)) ! i)),
                   Data = Some (fresh h + i)\<rparr> \<and>
        cells h' (fresh h + i) =
          call_attrs (procDescription (fst (concat (map (\<lambda>p. map (Pair p) (Calls p)) (p # ps)) ! i)))
            (snd (concat (map (\<lambda>p. map (Pair p) (Calls p)) (p # ps)) ! i))"
    proof (cases "i < length res1")
      case True
      then have iC: "i < length (Calls p)" using l1 by simp
      have a: "res ! i = res1 ! i" using True res by (simp add: nth_append)
      have b: "(?here @ ?rest) ! i = (p, Calls p ! i)" using iC by (simp add: nth_append)
      have "fresh h + i < fresh h1" using True f1 by simp
      then have d: "cells h' (fresh h + i) = cells h1 (fresh h + i)" using R h' by simp
      show ?thesis unfolding cc a b d using C True by simp
    next
      case False
      then have full: "length res1 = length (Calls p)"
        using short i res by (cases "length res1 < length (Calls p)") (auto simp: l1)
      define j where "j = i - length res1"
      have j: "j < length res2" and ij: "i = length res1 + j" using False i res by (auto simp: j_def)
      have a: "res ! i = res2 ! j" using ij res by (simp add: nth_append)
      have b: "(?here @ ?rest) ! i = ?rest ! j" using ij full by (simp add: nth_append)
      have e: "fresh h + i = fresh h1 + j" using ij f1 by simp
      show ?thesis unfolding cc a b e h' using R j by simp
    qed
  qed
  show ?case using len fr old each by blast
qed

lemma processes_loop_Subtype:
  "processes_loop a ps h = (res, h') \<Longrightarrow> filter (\<lambda>r. Subtype r = ''api_call'') res = []"
  by (induction ps arbitrary: h res h') (auto simp: Let_def split: prod.splits)

lemma api_calls_all:
  assumes "api_calls_loop mx ps n h = (res, h')"
  shows "filter (\<lambda>r. Subtype r = ''api_call'') res = res"
proof -
  have "\<forall>i<length res. Subtype (res ! i) = ''api_call''"
    using api_calls_loop_spec [OF assms] by simp
  then have "\<forall>r\<in>set res. Subtype r = ''api_call''"
    by (metis in_set_conv_nth)
  then show ?thesis by simp
qed

text \<open>The \<open>api_call\<close> records of the batch are the records of the second loop, and the
  store the function returns is the one that loop left.\<close>

lemma processReportBehavior_parts:
  assumes "processReportBehavior mx (Some b) h = Inr (res, h')"
  shows "\<exists>h1 res2. api_calls_loop mx (Processes b) 0 h1 = (res2, h') \<and> api_call_records res = res2"
proof -
  obtain resMap h0 where m: "make_map h = (resMap, h0)" by (metis surj_pair)
  obtain res1 h1 where p: "processes_loop resMap (Processes b) h0 = (res1, h1)" by (metis surj_pair)
  obtain res2 h2 where a: "api_calls_loop mx (Processes b) 0 h1 = (res2, h2)" by (metis surj_pair)
  obtain s where s: "Summary b = Some s"
    using assms m p a by (cases "Summary b") (simp_all add: processReportBehavior_def)
  have res: "res = res1 @ res2 @ map (summary_record ''file'') (Files s)
                 @ map (summary_record ''registry_key'') (Keys s)
                 @ map (summary_record ''mutex'') (Mutexes s)" and h': "h' = h2"
    using assms m p a s by (simp_all add: processReportBehavior_def)
  have "api_call_records res = res2"
    unfolding res api_call_records_def
    using processes_loop_Subtype [OF p] api_calls_all [OF a]
    by (simp add: summary_record_def filter_empty_conv)
  then show ?thesis using a h' by blast
qed

lemma processReportBehavior_nil_summary:
  "Summary b = None \<Longrightarrow> processReportBehavior mx (Some b) h = Inl NilDereference"
  by (simp add: processReportBehavior_def split: prod.splits)

text \<open>
  Claim C9. Whenever \<open>processReportBehavior\<close> returns a batch, its \<open>api_call\<close> records are
  the first \<open>PushApiCallsMax\<close> calls of the behavior section in process-then-call order
  (all of them if there are fewer): the record at position \<open>i\<close> has the name of the
  \<open>i\<close>-th call as its value and points to a map holding that call's attributes with
  the description of its process. So their number never exceeds a cap that is not
  negative, and a cap of zero (or below) gives no \<open>api_call\<close> record at all, however
  many processes and calls there are. (With a nil \<open>Summary\<close> the function panics and
  returns no batch.)
\<close>

theorem processReportBehavior_api_calls:
  "processReportBehavior pushApiCallsMax (Some b) h = Inr (res, h') \<Longrightarrow>
     length (api_call_records res) = min (length (calls_in_order b)) (nat pushApiCallsMax) \<and>
     (\<forall>i<length (api_call_records res).
        Result (api_call_records res ! i) = Api (snd (calls_in_order b ! i)) \<and>
        (\<exists>a. Data (api_call_records res ! i) = Some a \<and>
             cells h' a = call_attrs (procDescription (fst (calls_in_order b ! i)))
                            (snd (calls_in_order b ! i)))) \<and>
     (0 \<le> pushApiCallsMax \<longrightarrow> int (length (api_call_records res)) \<le> pushApiCallsMax) \<and>
     (pushApiCallsMax \<le> 0 \<longrightarrow> api_call_records res = [])"
proof -
  assume run: "processReportBehavior pushApiCallsMax (Some b) h = Inr (res, h')"
  obtain h1 where a: "api_calls_loop pushApiCallsMax (Processes b) 0 h1 = (api_call_records res, h')"
    using processReportBehavior_parts [OF run] by blast
  note S = api_calls_loop_spec [OF a, folded calls_in_order_def]
  have len: "length (api_call_records res) = min (length (calls_in_order b)) (nat pushApiCallsMax)"
    using S by simp
  have each: "\<forall>i<length (api_call_records res).
        Result (api_call_records res ! i) = Api (snd (calls_in_order b ! i)) \<and>
        (\<exists>a. Data (api_call_records res ! i) = Some a \<and>
             cells h' a = call_attrs (procDescription (fst (calls_in_order b ! i)))
                            (snd (calls_in_order b ! i)))"
    using S by simp
  have cap: "0 \<le> pushApiCallsMax \<longrightarrow> int (length (api_call_records res)) \<le> pushApiCallsMax"
    using len by linarith
  have zero: "pushApiCallsMax \<le> 0 \<longrightarrow> api_call_records res = []"
  proof
    assume "pushApiCallsMax \<le> 0"
    then have "length (api_call_records res) = 0" using len by simp
    then show "api_call_records res = []" by simp
  qed
  show ?thesis using len each cap zero by blast
qed

text \<open>An instance: two processes with one and two calls, a cap of two, a summary with
  one file. The batch has the two process records, the first two calls, and the file.\<close>

theorem processReportBehavior_api_calls_witness:
  "\<exists>res h'.
     processReportBehavior 2
       (Some \<lparr>Processes =
          [\<lparr>pcs_Name = ''a.exe'', pcs_Id = 7, ParentId = 1, FirstSeen = ''t0'',
            Calls = [\<lparr>Category = ''file'', call_Status = True, Return = ''0'', Timestamp = ''t1'',
                      ThreadId = ''1'', Repeated = 0, Api = ''NtOpenFile'', Arguments = [], call_Id = 0\<rparr>]\<rparr>,
           \<lparr>pcs_Name = ''b.exe'', pcs_Id = 8, ParentId = 7, FirstSeen = ''t2'',
            Calls = [\<lparr>Category = ''file'', call_Status = False, Return = ''1'', Timestamp = ''t3'',
                      ThreadId = ''2'', Repeated = 0, Api = ''NtReadFile'', Arguments = [], call_Id = 0\<rparr>,
                     \<lparr>Category = ''file'', call_Status = True, Return = ''0'', Timestamp = ''t4'',
                      ThreadId = ''2'', Repeated = 1, Api = ''NtClose'', Arguments = [], call_Id = 1\<rparr>]\<rparr>],
          Summary = Some \<lparr>Files = [''c:/x''], Keys = [], Mutexes = []\<rparr>\<rparr>)
       empty_heap = Inr (res, h') \<and>
     map Result (api_call_records res) = [''NtOpenFile'', ''NtReadFile''] \<and>
     map Subtype res = [''process'', ''process'', ''api_call'', ''api_call'', ''file'']"
  (is "\<exists>res h'. ?run = Inr (res, h') \<and> ?P res")
proof -
  obtain res h' where run: "?run = Inr (res, h')"
    and sub: "map Subtype res = [''process'', ''process'', ''api_call'', ''api_call'', ''file'']"
    by (simp add: processReportBehavior_def make_map_def map_store_def empty_heap_def
        summary_record_def)
  note T = processReportBehavior_api_calls [OF run]
  have len: "length (api_call_records res) = 2"
    using T by (simp add: calls_in_order_def)
  have "Result (api_call_records res ! 0) = ''NtOpenFile''"
    using T len by (simp add: calls_in_order_def)
  moreover have "Result (api_call_records res ! 1) = ''NtReadFile''"
    using T len by (simp add: calls_in_order_def)
  ultimately have "map Result (api_call_records res) = [''NtOpenFile'', ''NtReadFile'']"
    using len by (auto simp: list_eq_iff_nth_eq less_Suc_eq numeral_2_eq_2)
  then show ?thesis using run sub by (intro exI [of _ res] exI [of _ h']) simp
qed

subsection \<open>The machine name\<close>

lemma key_name: "key_matches ''name'' ''name''"
  by (simp add: key_matches_def)

lemma processReportInfo_Result:
  "map Result (fst (processReportInfo (Some i) h)) =
     [let (err, s) = unmarshal_string (Machine i) '''';
          (err2, m) = unmarshal_Machine (Machine i) \<lparr>mach_Name = ''''\<rparr>
      in if err2 = None then mach_Name m
         else if err \<noteq> None \<or> s = '''' then ''FAILED'' else s]"
  by (auto simp: processReportInfo_def Let_def split: prod.splits)

text \<open>
  Claim C8, as amended. For every info section, the machine name \<open>processReportInfo\<close>
  extracts is: the string itself when \<open>info.machine\<close> is a bare JSON string that is not
  empty; \<open>FAILED\<close> when it is the empty string; the name field when it is an object
  \<open>{"name": s}\<close>, and for any object the decoded \<open>Name\<close> if the object decodes into
  the machine struct and \<open>FAILED\<close> if it does not; \<open>FAILED\<close> when the field is missing,
  or is a number, a boolean or an array.
\<close>

theorem processReportInfo_machine:
  "(s \<noteq> '''' \<longrightarrow> machine_name i h (Some (JString s)) = [s]) \<and>
   machine_name i h (Some (JString '''')) = [''FAILED''] \<and>
   machine_name i h (Some (JObject [(''name'', JString s)])) = [s] \<and>
   machine_name i h (Some (JObject kvs)) =
     [case machine_members kvs (None, \<lparr>mach_Name = ''''\<rparr>) of
        (None, m) \<Rightarrow> mach_Name m
      | (Some e, m) \<Rightarrow> ''FAILED''] \<and>
   machine_name i h None = [''FAILED''] \<and>
   machine_name i h (Some (JNumber n)) = [''FAILED''] \<and>
   machine_name i h (Some (JBool b)) = [''FAILED''] \<and>
   machine_name i h (Some (JArray vs)) = [''FAILED'']"
  by (simp add: processReportInfo_Result key_name split: prod.splits option.splits)

theorem processReportInfo_machine_witness:
  "''win7'' \<noteq> '''' \<and>
   machine_name \<lparr>Started = ''s'', Ended = ''e'', info_Id = 5, Machine = None\<rparr> empty_heap
     (Some (JString ''win7'')) = [''win7''] \<and>
   machine_name \<lparr>Started = ''s'', Ended = ''e'', info_Id = 5, Machine = None\<rparr> empty_heap
     (Some (JObject [(''name'', JString ''win10'')])) = [''win10'']"
  using processReportInfo_machine [of "''win7''" "\<lparr>Started = ''s'', Ended = ''e'', info_Id = 5, Machine = None\<rparr>" empty_heap]
    processReportInfo_machine [of "''win10''" "\<lparr>Started = ''s'', Ended = ''e'', info_Id = 5, Machine = None\<rparr>" empty_heap]
  by simp

text \<open>The bare string \<open>""\<close> does not yield itself: the guard \<open>machineString == ""\<close> turns
  it into \<open>FAILED\<close>, and the second decoding fails on a string.\<close>

theorem processReportInfo_empty_string_counterexample:
  "map Result (fst (processReportInfo
      (Some \<lparr>Started = ''s'', Ended = ''e'', info_Id = 5, Machine = Some (JString '''')\<rparr>) empty_heap))
   = [''FAILED''] \<and>
   map Result (fst (processReportInfo
      (Some \<lparr>Started = ''s'', Ended = ''e'', info_Id = 5, Machine = Some (JString '''')\<rparr>) empty_heap))
   \<noteq> ['''']"
  by (simp add: processReportInfo_Result)

text \<open>A JSON \<open>null\<close> decodes without error both times and leaves both targets empty.\<close>

lemma processReportInfo_null:
  "machine_name i h (Some JNull) = ['''']"
  by (simp add: processReportInfo_Result)

subsection \<open>Signature records\<close>

text \<open>
  What holds of the signature loop: one record per signature, in order, with subtype
  \<open>signature\<close> and the description as value. All records point to the same map, and
  after the loop that map holds the severity and name of the last signature.
\<close>

lemma signatures_loop_spec:
  "signatures_loop a ss h = (res, h') \<Longrightarrow>
     map Result res = map Description ss \<and>
     (\<forall>r\<in>set res. Subtype r = ''signature'' \<and> Data r = Some a) \<and>
     (ss \<noteq> [] \<longrightarrow>
        cells h' a ''severity'' = Some (VString (Itoa (Severity (last ss)))) \<and>
        cells h' a ''name'' = Some (VString (sig_Name (last ss))))"
proof (induction ss arbitrary: h res h')
  case Nil
  then show ?case by simp
next
  case (Cons s ss)
  let ?h2 = "map_store a ''name'' (VString (sig_Name s))
               (map_store a ''severity'' (VString (Itoa (Severity s))) h)"
  obtain res0 h0 where rec: "signatures_loop a ss ?h2 = (res0, h0)" by (metis surj_pair)
  have res: "res = \<lparr>Subtype = ''signature'', Result = Description s, Data = Some a\<rparr> # res0"
    and h': "h' = h0"
    using Cons.prems rec by (simp_all add: Let_def)
  note IH = Cons.IH [OF rec]
  show ?case
  proof (cases ss)
    case Nil
    then have "h0 = ?h2" using rec by simp
    then show ?thesis using IH res h' Nil by (simp add: map_store_def)
  next
    case (Cons t ts)
    then show ?thesis using IH res h' by simp
  qed
qed

text \<open>
  Claim C4, at a list of two signatures. The two records have the right values in the
  right order, but both point to the map at address 0, which after the loop holds
  severity \<open>2\<close> and name \<open>n2\<close>: the attributes of the first record are those of the
  second signature, not its own severity \<open>1\<close> and name \<open>n1\<close>.
\<close>

theorem processReportSignatures_shared_map:
  "(let (res, h') = processReportSignatures
        (Some [\<lparr>Severity = 1, Description = ''first'', sig_Name = ''n1''\<rparr>,
               \<lparr>Severity = 2, Description = ''second'', sig_Name = ''n2''\<rparr>]) empty_heap
    in map Result res = [''first'', ''second''] \<and>
       map Data res = [Some 0, Some 0] \<and>
       cells h' 0 ''severity'' = Some (VString ''2'') \<and>
       cells h' 0 ''name'' = Some (VString ''n2'') \<and>
       cells h' 0 ''severity'' \<noteq> Some (VString (Itoa 1)))"
  by (simp add: processReportSignatures_def make_map_def map_store_def empty_heap_def Itoa_def digits.simps)

section \<open>Properties of the shared core\<close>

lemma Send_ok:
  "publish_err w q = None \<Longrightarrow> Send q b w = Inr (emit (Published q b) w)"
  by (simp add: Send_def FailOnError_def)

lemma Send_refused:
  "publish_err w q = Some x \<Longrightarrow>
     Send q b w = Inl (Fatal (''Failed to publish a message: '' @ x @ [CHR 0x0A]), w)"
  by (simp add: Send_def FailOnError_def)

text \<open>
  Claim C1. For every error text, description and delivery: when the broker accepts the
  publish on the failed queue (the liveness of the bus channel that the services
  presume; a refused publish is fatal, see \<open>NackOnError_publish_refused\<close>),
  \<open>NackOnError\<close> with a non-nil error adds exactly two actions to the trace: it
  publishes to the service's failed queue the encoded envelope whose \<open>Service\<close> is the
  core's service name, \<open>Queue\<close> the routing key of the delivery, \<open>Error\<close> the error
  text, \<open>Desc\<close> the description and \<open>Msg\<close> the body of the delivery, and then it
  negatively acknowledges the delivery with \<open>multiple = false\<close> and \<open>requeue = false\<close>;
  it returns \<open>true\<close>. With a nil error it returns \<open>false\<close> and leaves the world as it
  is: no publish, no acknowledgement, no negative acknowledgement.
\<close>

theorem NackOnError_contract:
  "(publish_err w (failed c) = None \<longrightarrow>
      NackOnError marshal c (Some e) desc msg w =
        Inr (True, w\<lparr>trace := trace w @
               [Published (failed c)
                  (marshal \<lparr>Service = ServiceName c, Queue = RoutingKey msg, Error = e,
                             Desc = desc, Msg = Body msg\<rparr>),
                Nacked (DeliveryTag msg) False False]\<rparr>)) \<and>
   NackOnError marshal c None desc msg w = Inr (False, w)"
  by (simp add: NackOnError_def Send_ok emit_def)

text \<open>When the broker refuses the publish, \<open>Send\<close> panics through \<open>FailOnError\<close>: nothing
  is published and the delivery is not negatively acknowledged.\<close>

lemma NackOnError_publish_refused:
  "publish_err w (failed c) = Some x \<Longrightarrow>
     NackOnError marshal c (Some e) desc msg w =
       Inl (Fatal (''Failed to publish a message: '' @ x @ [CHR 0x0A]), w)"
  by (simp add: NackOnError_def Send_refused)

text \<open>An instance: the Feeder fails to decode the delivery with tag 7 from \<open>submit\<close>.\<close>

theorem NackOnError_contract_witness:
  "publish_err \<lparr>trace = [], publish_err = (\<lambda>q. None), declare_err = (\<lambda>q. None)\<rparr> ''failed'' = None \<and>
   NackOnError Msg \<lparr>ServiceName = ''feed_cuckoo'', failed = ''failed''\<rparr> (Some ''boom'') ''Could not decode json!''
       \<lparr>RoutingKey = ''submit'', Body = ''{'', DeliveryTag = 7\<rparr>
       \<lparr>trace = [], publish_err = (\<lambda>q. None), declare_err = (\<lambda>q. None)\<rparr> =
     Inr (True, \<lparr>trace = [Published ''failed'' ''{'', Nacked 7 False False],
                 publish_err = (\<lambda>q. None), declare_err = (\<lambda>q. None)\<rparr>)"
  using NackOnError_contract [of "\<lparr>trace = [], publish_err = (\<lambda>q. None), declare_err = (\<lambda>q. None)\<rparr>"
      "\<lparr>ServiceName = ''feed_cuckoo'', failed = ''failed''\<rparr>" Msg "''boom''" "''Could not decode json!''"
      "\<lparr>RoutingKey = ''submit'', Body = ''{'', DeliveryTag = 7\<rparr>"]
  by simp

section \<open>Properties of the Overseer\<close>

text \<open>The file name \<open>dumpMsg\<close> picks is not the name of a file in the dump directory.\<close>

lemma dump_counter_fresh: "(now, dump_counter fs now c) \<notin> fst ` set fs"
proof (induction fs now c rule: dump_counter.induct)
  case (1 fs now counter)
  then show ?case by (subst dump_counter.simps) (simp del: dump_counter.simps)
qed

lemma dumpMsg_ok:
  assumes "open_err s = None" "write_err s = None"
  shows "dumpMsg now msg s =
           Inr (s\<lparr>trace := trace s @ [Acked (DeliveryTag msg) False],
                   dump_files := dump_files s @ [((now, dump_counter (dump_files s) now 0), Body msg)]\<rparr>)"
  using assms by (simp add: dumpMsg_def FailOnError_def emit_def Let_def)

lemma resubmit_ok:
  assumes "publish_err s (Queue m) = None" "declare_err s (Queue m) = None"
  shows "\<exists>ps. resubmit cd m msg s =
           Inr (s\<lparr>trace := trace s @ [Published (Queue m) (case Unquote cd (Msg m) of Some u \<Rightarrow> u | None \<Rightarrow> Msg m)],
                   producers := ps\<rparr>)"
proof (cases "Queue m \<in> set (producers s)")
  case True
  then have "resubmit cd m msg s =
           Inr (s\<lparr>trace := trace s @ [Published (Queue m) (case Unquote cd (Msg m) of Some u \<Rightarrow> u | None \<Rightarrow> Msg m)],
                   producers := producers s\<rparr>)"
    using assms by (simp add: resubmit_def Send_ok emit_def)
  then show ?thesis by blast
next
  case False
  then have "resubmit cd m msg s =
           Inr (s\<lparr>trace := trace s @ [Published (Queue m) (case Unquote cd (Msg m) of Some u \<Rightarrow> u | None \<Rightarrow> Msg m)],
                   producers := producers s @ [Queue m]\<rparr>)"
    using assms by (simp add: resubmit_def Send_ok emit_def SetupQueue_def FailOnError_def)
  then show ?thesis by blast
qed

text \<open>What one handled delivery leaves unchanged, and what it does to the counters.\<close>

lemma dumpMsg_frame:
  "dumpMsg now msg s = Inr s' \<Longrightarrow> same_env s s' \<and> failedMap s' = failedMap s"
  by (auto simp: dumpMsg_def FailOnError_def emit_def Let_def same_env_def split: option.splits)

lemma resubmit_frame:
  "resubmit cd m msg s = Inr s' \<Longrightarrow> same_env s s' \<and> failedMap s' = failedMap s"
  by (auto simp: resubmit_def Send_def SetupQueue_def FailOnError_def emit_def Let_def same_env_def
      split: option.splits if_splits sum.splits)

lemma counter_of_count_failure:
  "counter_of (count_failure fm aid) b = (if b = aid then counter_of fm aid + 1 else counter_of fm b)"
  by (simp add: count_failure_def counter_of_def Let_def)

lemma parseMsg_frame:
  assumes "parseMsg cd now msg s = Inr s'"
  shows "same_env s s' \<and>
         failedMap s' = (case carried_id cd msg of None \<Rightarrow> failedMap s | Some aid \<Rightarrow> count_failure (failedMap s) aid)"
proof (cases "unmarshal_FailedMsg cd (Body msg)")
  case None
  then show ?thesis using assms dumpMsg_frame [of now msg s s']
    by (simp add: parseMsg_def carried_id_def)
next
  case (Some m)
  note m = this
  show ?thesis
  proof (cases "unmarshal_genericMsg cd (Msg m)")
    case None
    then show ?thesis using assms m dumpMsg_frame [of now msg s s']
      by (simp add: parseMsg_def carried_id_def handleFailed_def)
  next
    case (Some payload)
    note p = this
    show ?thesis
    proof (cases "analysis_id payload")
      case None
      then show ?thesis using assms m p dumpMsg_frame [of now msg s s']
        by (simp add: parseMsg_def carried_id_def handleFailed_def)
    next
      case (Some aid)
      let ?s1 = "s\<lparr>failedMap := count_failure (failedMap s) aid\<rparr>"
      have c: "carried_id cd msg = Some aid" using m p Some by (simp add: carried_id_def)
      show ?thesis
      proof (cases "counter_of (count_failure (failedMap s) aid) aid > 3")
        case True
        then have "dumpMsg now msg ?s1 = Inr s'"
          using assms m p Some by (simp add: parseMsg_def handleFailed_def Let_def)
        from dumpMsg_frame [OF this] show ?thesis using c by (simp add: same_env_def)
      next
        case False
        then obtain s2 where r: "resubmit cd m msg (emit (Slept 60) ?s1) = Inr s2"
          and s': "s' = emit (Acked (DeliveryTag msg) False) s2"
          using assms m p Some
          by (auto simp: parseMsg_def handleFailed_def Let_def split: sum.splits)
        from resubmit_frame [OF r] show ?thesis using c s' by (simp add: same_env_def emit_def)
      qed
    qed
  qed
qed


lemma consume_frame:
  "consume cd ds s = Inr s' \<Longrightarrow>
     same_env s s' \<and>
     counter_of (failedMap s') A =
       counter_of (failedMap s) A + int (length (filter (\<lambda>(t, d). carried_id cd d = Some A) ds))"
proof (induction ds arbitrary: s)
  case Nil
  then show ?case by (simp add: same_env_def)
next
  case (Cons td ds)
  obtain t d where td: "td = (t, d)" by (cases td)
  obtain s1 where p: "parseMsg cd t d s = Inr s1" and c: "consume cd ds s1 = Inr s'"
    using Cons.prems td by (auto split: sum.splits)
  note P = parseMsg_frame [OF p]
  note IH = Cons.IH [OF c]
  have "counter_of (failedMap s1) A = counter_of (failedMap s) A + (if carried_id cd d = Some A then 1 else 0)"
    using P by (auto simp: counter_of_count_failure split: option.splits)
  then show ?case using IH P td by (auto simp: same_env_def)
qed

text \<open>
  Claim C2. Let the Overseer start with no counter for analysis id \<open>A\<close> and handle the
  deliveries \<open>ds\<close> one after the other without a panic, on a broker that accepts the
  publishes to the origin queue and a dump directory in which files can be created and
  written. Let \<open>msg\<close> be a further delivery whose envelope \<open>m\<close> decodes and whose
  embedded body carries a RepositoryContext with id \<open>A\<close>. If fewer than three of the
  deliveries in \<open>ds\<close> carried \<open>A\<close> (so \<open>msg\<close> is the first, second or third), the
  Overseer sleeps 60 seconds, republishes the embedded body (unquoted if it is a quoted
  string) to the origin queue \<open>Queue m\<close>, acknowledges, and writes no file. If three or
  more did (so \<open>msg\<close> is the fourth or a later one), it publishes nothing, writes
  exactly one new file into the dump directory, holding the body of the delivery, and
  acknowledges. Hence an analysis id is republished at most three times.
\<close>

theorem overseer_three_retries:
  assumes run: "consume cd ds s0 = Inr s"
    and start: "failedMap s0 A = None"
    and env: "publish_err s0 (Queue m) = None" "declare_err s0 (Queue m) = None"
             "open_err s0 = None" "write_err s0 = None"
    and m: "unmarshal_FailedMsg cd (Body msg) = Some m"
    and A: "carried_id cd msg = Some A"
  shows "(length (filter (\<lambda>(t, d). carried_id cd d = Some A) ds) < 3 \<longrightarrow>
            (\<exists>s'. parseMsg cd now msg s = Inr s' \<and>
                  trace s' = trace s @
                    [Slept 60,
                     Published (Queue m) (case Unquote cd (Msg m) of Some u \<Rightarrow> u | None \<Rightarrow> Msg m),
                     Acked (DeliveryTag msg) False] \<and>
                  dump_files s' = dump_files s)) \<and>
         (3 \<le> length (filter (\<lambda>(t, d). carried_id cd d = Some A) ds) \<longrightarrow>
            (\<exists>s' name. parseMsg cd now msg s = Inr s' \<and>
                  trace s' = trace s @ [Acked (DeliveryTag msg) False] \<and>
                  name \<notin> fst ` set (dump_files s) \<and>
                  dump_files s' = dump_files s @ [(name, Body msg)]))"
proof -
  let ?k = "length (filter (\<lambda>(t, d). carried_id cd d = Some A) ds)"
  note F = consume_frame [OF run, of A]
  have env': "publish_err s (Queue m) = None" "declare_err s (Queue m) = None"
             "open_err s = None" "write_err s = None"
    using F env by (simp_all add: same_env_def)
  have cnt: "counter_of (failedMap s) A = int ?k"
    using F start by (simp add: counter_of_def)
  obtain payload where p: "unmarshal_genericMsg cd (Msg m) = Some payload"
    and a: "analysis_id payload = Some A"
    using A m by (auto simp: carried_id_def split: option.splits)
  let ?s1 = "s\<lparr>failedMap := count_failure (failedMap s) A\<rparr>"
  have n: "counter_of (failedMap ?s1) A = int ?k + 1"
    using cnt by (simp add: counter_of_count_failure)
  have unfold: "parseMsg cd now msg s =
      (if int ?k + 1 > 3 then dumpMsg now msg ?s1
       else (case resubmit cd m msg (emit (Slept 60) ?s1) of
               Inl pw \<Rightarrow> Inl pw
             | Inr s2 \<Rightarrow> Inr (emit (Acked (DeliveryTag msg) False) s2)))"
    using m p a n by (simp add: parseMsg_def handleFailed_def Let_def)
  have few: "?k < 3 \<longrightarrow>
            (\<exists>s'. parseMsg cd now msg s = Inr s' \<and>
                  trace s' = trace s @
                    [Slept 60,
                     Published (Queue m) (case Unquote cd (Msg m) of Some u \<Rightarrow> u | None \<Rightarrow> Msg m),
                     Acked (DeliveryTag msg) False] \<and>
                  dump_files s' = dump_files s)"
  proof
    assume k: "?k < 3"
    have "\<exists>ps. resubmit cd m msg (emit (Slept 60) ?s1) =
           Inr ((emit (Slept 60) ?s1)\<lparr>trace := trace (emit (Slept 60) ?s1) @
                  [Published (Queue m) (case Unquote cd (Msg m) of Some u \<Rightarrow> u | None \<Rightarrow> Msg m)],
                   producers := ps\<rparr>)"
      using env' by (intro resubmit_ok) (simp_all add: emit_def)
    then obtain ps where "resubmit cd m msg (emit (Slept 60) ?s1) =
           Inr ((emit (Slept 60) ?s1)\<lparr>trace := trace (emit (Slept 60) ?s1) @
                  [Published (Queue m) (case Unquote cd (Msg m) of Some u \<Rightarrow> u | None \<Rightarrow> Msg m)],
                   producers := ps\<rparr>)" by blast
    then show "\<exists>s'. parseMsg cd now msg s = Inr s' \<and>
                  trace s' = trace s @
                    [Slept 60,
                     Published (Queue m) (case Unquote cd (Msg m) of Some u \<Rightarrow> u | None \<Rightarrow> Msg m),
                     Acked (DeliveryTag msg) False] \<and>
                  dump_files s' = dump_files s"
      using k unfold by (simp add: emit_def)
  qed
  have many: "3 \<le> ?k \<longrightarrow>
            (\<exists>s' name. parseMsg cd now msg s = Inr s' \<and>
                  trace s' = trace s @ [Acked (DeliveryTag msg) False] \<and>
                  name \<notin> fst ` set (dump_files s) \<and>
                  dump_files s' = dump_files s @ [(name, Body msg)])"
  proof
    assume k: "3 \<le> ?k"
    have d: "dumpMsg now msg ?s1 =
           Inr (?s1\<lparr>trace := trace ?s1 @ [Acked (DeliveryTag msg) False],
                   dump_files := dump_files ?s1 @ [((now, dump_counter (dump_files ?s1) now 0), Body msg)]\<rparr>)"
      using env' by (intro dumpMsg_ok) simp_all
    have fresh: "(now, dump_counter (dump_files s) now 0) \<notin> fst ` set (dump_files s)"
      by (rule dump_counter_fresh)
    show "\<exists>s' name. parseMsg cd now msg s = Inr s' \<and>
                  trace s' = trace s @ [Acked (DeliveryTag msg) False] \<and>
                  name \<notin> fst ` set (dump_files s) \<and>
                  dump_files s' = dump_files s @ [(name, Body msg)]"
      using k unfold d fresh by (intro exI [of _ "?s1\<lparr>trace := trace ?s1 @ [Acked (DeliveryTag msg) False],
                   dump_files := dump_files ?s1 @ [((now, dump_counter (dump_files ?s1) now 0), Body msg)]\<rparr>"]
          exI [of _ "(now, dump_counter (dump_files s) now 0)"]) simp
  qed
  show ?thesis using few many by blast
qed

text \<open>An instance: after three deliveries for \<open>A1\<close>, the fourth one (tag 4) is dumped.\<close>

theorem overseer_three_retries_witness:
  "\<exists>s s'.
     consume
       \<lparr>unmarshal_FailedMsg = (\<lambda>b. Some \<lparr>Service = ''feed_cuckoo'', Queue = ''submit'',
                                          Error = ''e'', Desc = ''d'', Msg = b\<rparr>),
        unmarshal_genericMsg = (\<lambda>b. Some \<lparr>gm_CritsData = None,
            gm_CritsDataJ = Some \<lparr>CritsURL = '''', AnalysisId = b, ObjectType = '''',
              ObjectId = '''', Username = '''', ApiKey = '''', MD5 = '''', Source = ''''\<rparr>\<rparr>),
        Unquote = (\<lambda>b. None)\<rparr>
       [(10, \<lparr>RoutingKey = ''failed'', Body = ''A1'', DeliveryTag = 1\<rparr>),
        (80, \<lparr>RoutingKey = ''failed'', Body = ''A1'', DeliveryTag = 2\<rparr>),
        (150, \<lparr>RoutingKey = ''failed'', Body = ''A1'', DeliveryTag = 3\<rparr>)]
       \<lparr>trace = [], publish_err = (\<lambda>q. None), declare_err = (\<lambda>q. None),
        failedMap = Map.empty, producers = [], dump_files = [], open_err = None,
        write_err = None\<rparr> = Inr s \<and>
     parseMsg
       \<lparr>unmarshal_FailedMsg = (\<lambda>b. Some \<lparr>Service = ''feed_cuckoo'', Queue = ''submit'',
                                          Error = ''e'', Desc = ''d'', Msg = b\<rparr>),
        unmarshal_genericMsg = (\<lambda>b. Some \<lparr>gm_CritsData = None,
            gm_CritsDataJ = Some \<lparr>CritsURL = '''', AnalysisId = b, ObjectType = '''',
              ObjectId = '''', Username = '''', ApiKey = '''', MD5 = '''', Source = ''''\<rparr>\<rparr>),
        Unquote = (\<lambda>b. None)\<rparr>
       220 \<lparr>RoutingKey = ''failed'', Body = ''A1'', DeliveryTag = 4\<rparr> s = Inr s' \<and>
     trace s' = trace s @ [Acked 4 False] \<and>
     length (dump_files s') = length (dump_files s) + 1"
proof -
  define cd where "cd = \<lparr>unmarshal_FailedMsg = (\<lambda>b. Some \<lparr>Service = ''feed_cuckoo'', Queue = ''submit'',
                                          Error = ''e'', Desc = ''d'', Msg = b\<rparr>),
        unmarshal_genericMsg = (\<lambda>b. Some \<lparr>gm_CritsData = None,
            gm_CritsDataJ = Some \<lparr>CritsURL = '''', AnalysisId = b, ObjectType = '''',
              ObjectId = '''', Username = '''', ApiKey = '''', MD5 = '''', Source = ''''\<rparr>\<rparr>),
        Unquote = (\<lambda>b. None)\<rparr>"
  define ds where "ds = [(10::int, \<lparr>RoutingKey = ''failed'', Body = ''A1'', DeliveryTag = 1\<rparr>),
        (80, \<lparr>RoutingKey = ''failed'', Body = ''A1'', DeliveryTag = 2\<rparr>),
        (150, \<lparr>RoutingKey = ''failed'', Body = ''A1'', DeliveryTag = 3\<rparr>)]"
  define s0 where "s0 = \<lparr>trace = [], publish_err = (\<lambda>q::string. None::string option),
        declare_err = (\<lambda>q::string. None::string option),
        failedMap = Map.empty, producers = [], dump_files = [], open_err = None,
        write_err = None\<rparr>"
  define msg where "msg = \<lparr>RoutingKey = ''failed'', Body = ''A1'', DeliveryTag = 4\<rparr>"
  define m where "m = \<lparr>Service = ''feed_cuckoo'', Queue = ''submit'', Error = ''e'', Desc = ''d'', Msg = ''A1''\<rparr>"
  have "\<exists>s. consume cd ds s0 = Inr s"
    by (simp add: cd_def ds_def s0_def parseMsg_def handleFailed_def analysis_id_def
        count_failure_def counter_of_def resubmit_def SetupQueue_def Send_def FailOnError_def
        emit_def Let_def)
  then obtain s where run: "consume cd ds s0 = Inr s" by blast
  have k: "length (filter (\<lambda>(t, d). carried_id cd d = Some ''A1'') ds) = 3"
    by (simp add: cd_def ds_def carried_id_def analysis_id_def)
  have h: "failedMap s0 ''A1'' = None" "publish_err s0 (Queue m) = None"
    "declare_err s0 (Queue m) = None" "open_err s0 = None" "write_err s0 = None"
    "unmarshal_FailedMsg cd (Body msg) = Some m" "carried_id cd msg = Some ''A1''"
    by (simp_all add: s0_def cd_def msg_def m_def carried_id_def analysis_id_def)
  from overseer_three_retries [OF run h, of 220] k
  obtain s' name where "parseMsg cd 220 msg s = Inr s'"
    "trace s' = trace s @ [Acked (DeliveryTag msg) False]"
    "dump_files s' = dump_files s @ [(name, Body msg)]"
    by auto
  then have "consume cd ds s0 = Inr s \<and> parseMsg cd 220 msg s = Inr s' \<and>
     trace s' = trace s @ [Acked 4 False] \<and> length (dump_files s') = length (dump_files s) + 1"
    using run by (simp add: msg_def)
  then show ?thesis unfolding cd_def ds_def s0_def msg_def by blast
qed

section \<open>Properties of the Repository client\<close>

lemma stringify_bools_idem: "stringify_bools (stringify_bools m) = stringify_bools m"
  by (rule ext) (simp add: stringify_bools_def split: option.splits Value.splits)

lemma stringify_bools_no_bool: "stringify_bools m k \<noteq> Some (VBool b)"
  by (simp add: stringify_bools_def split: option.splits Value.splits)

lemma stringify_bools_rendered:
  "m k = Some (VBool b) \<Longrightarrow> stringify_bools m k = Some (VString (if b then ''true'' else ''false''))"
  by (simp add: stringify_bools_def FormatBool_def)

lemma stringify_bools_other:
  "(\<forall>b. m k \<noteq> Some (VBool b)) \<Longrightarrow> stringify_bools m k = m k"
  by (simp add: stringify_bools_def split: option.splits Value.splits)

text \<open>
  The loop of \<open>AddResults\<close>, when it ends without an error: the first and third array grow
  by the values and subtypes of the batch; every map a record points to has been
  converted in place, all others are untouched; and the second array grows by one text
  per record, \<open>{}\<close> for a nil map and else the encoding of the converted map.
\<close>

lemma AddResults_loop_spec:
  "AddResults_loop marshal rs h (aR, aT, aS) = (Inr (bR, bT, bS), h') \<Longrightarrow>
     bR = aR @ map Result rs \<and>
     bS = aS @ map Subtype rs \<and>
     fresh h' = fresh h \<and>
     (\<forall>a. cells h' a = (if Some a \<in> Data ` set rs then stringify_bools (cells h a) else cells h a)) \<and>
     (\<exists>ts. bT = aT @ ts \<and> length ts = length rs \<and>
        (\<forall>i<length rs.
           case Data (rs ! i) of
             None \<Rightarrow> ts ! i = ''{}''
           | Some a \<Rightarrow> marshal (stringify_bools (cells h a)) = Inr (ts ! i)))"
proof (induction rs arbitrary: h aR aT aS)
  case Nil
  then show ?case by simp
next
  case (Cons r rs)
  show ?case
  proof (cases "Data r")
    case None
    then have rec: "AddResults_loop marshal rs h (aR @ [Result r], aT @ [''{}''], aS @ [Subtype r])
        = (Inr (bR, bT, bS), h')"
      using Cons.prems by simp
    note IH = Cons.IH [OF rec]
    then obtain ts where ts: "bT = (aT @ [''{}'']) @ ts" "length ts = length rs"
      "\<forall>i<length rs. case Data (rs ! i) of None \<Rightarrow> ts ! i = ''{}''
           | Some a \<Rightarrow> marshal (stringify_bools (cells h a)) = Inr (ts ! i)"
      by blast
    have each: "\<forall>i<length (r # rs). case Data ((r # rs) ! i) of
             None \<Rightarrow> (''{}'' # ts) ! i = ''{}''
           | Some a \<Rightarrow> marshal (stringify_bools (cells h a)) = Inr ((''{}'' # ts) ! i)"
    proof (intro allI impI)
      fix i assume "i < length (r # rs)"
      then show "case Data ((r # rs) ! i) of
             None \<Rightarrow> (''{}'' # ts) ! i = ''{}''
           | Some a \<Rightarrow> marshal (stringify_bools (cells h a)) = Inr ((''{}'' # ts) ! i)"
        using ts(3) None by (cases i) (auto split: option.splits)
    qed
    have cellsq: "\<forall>a. cells h' a = (if Some a \<in> Data ` set (r # rs) then stringify_bools (cells h a) else cells h a)"
      using IH None by auto
    show ?thesis
      using IH ts(1,2) each cellsq by (intro conjI exI [of _ "''{}'' # ts"]) simp_all
  next
    case (Some a)
    let ?h1 = "h\<lparr>cells := (cells h)(a := stringify_bools (cells h a))\<rparr>"
    obtain t where t: "marshal (stringify_bools (cells h a)) = Inr t"
      using Cons.prems Some by (cases "marshal (stringify_bools (cells h a))") (simp_all add: Let_def)
    have rec: "AddResults_loop marshal rs ?h1 (aR @ [Result r], aT @ [t], aS @ [Subtype r])
        = (Inr (bR, bT, bS), h')"
      using Cons.prems Some t by (simp add: Let_def)
    note IH = Cons.IH [OF rec]
    have c1: "\<And>b. stringify_bools (cells ?h1 b) = stringify_bools (cells h b)"
      by (simp add: stringify_bools_idem)
    obtain ts where ts: "bT = (aT @ [t]) @ ts" "length ts = length rs"
      "\<forall>i<length rs. case Data (rs ! i) of None \<Rightarrow> ts ! i = ''{}''
           | Some b \<Rightarrow> marshal (stringify_bools (cells h b)) = Inr (ts ! i)"
      using IH unfolding c1 by blast
    have each: "\<forall>i<length (r # rs). case Data ((r # rs) ! i) of
             None \<Rightarrow> (t # ts) ! i = ''{}''
           | Some b \<Rightarrow> marshal (stringify_bools (cells h b)) = Inr ((t # ts) ! i)"
    proof (intro allI impI)
      fix i assume "i < length (r # rs)"
      then show "case Data ((r # rs) ! i) of
             None \<Rightarrow> (t # ts) ! i = ''{}''
           | Some b \<Rightarrow> marshal (stringify_bools (cells h b)) = Inr ((t # ts) ! i)"
        using ts(3) Some t by (cases i) (auto split: option.splits)
    qed
    have cellsq: "\<forall>b. cells h' b = (if Some b \<in> Data ` set (r # rs) then stringify_bools (cells h b) else cells h b)"
    proof
      fix b
      have "cells h' b = (if Some b \<in> Data ` set rs then stringify_bools (cells ?h1 b) else cells ?h1 b)"
        using IH by blast
      then show "cells h' b = (if Some b \<in> Data ` set (r # rs) then stringify_bools (cells h b) else cells h b)"
        unfolding c1 using Some by (cases "b = a") auto
    qed
    show ?thesis
      using IH ts(1,2) each cellsq by (intro conjI exI [of _ "t # ts"]) simp_all
  qed
qed

text \<open>If \<open>AddResults\<close> made its request, the batch was not empty, the loop ended without
  an error, and the form is the one built from its arrays.\<close>

lemma AddResults_sent:
  assumes "AddResults decode marshal crt results h reply w = (err, h', w')"
    and "trace w' = trace w @ [HttpPostForm url data]"
  shows "results \<noteq> [] \<and>
     (\<exists>arrResult arrResultType arrResultSubtype.
        AddResults_loop marshal results h ([], [], []) =
          (Inr (arrResult, arrResultType, arrResultSubtype), h') \<and>
        data = [(''result_is_batch'', FText ''true''),
                (''result'', FArray arrResult),
                (''result_subtype'', FArray arrResultSubtype),
                (''result_type'', FArray arrResultType)] @ context_fields (crt_Data crt))"
proof (cases "results = []")
  case True
  then show ?thesis using assms by (simp add: AddResults_def)
next
  case False
  obtain x h1 where l: "AddResults_loop marshal results h ([], [], []) = (x, h1)" by (metis surj_pair)
  show ?thesis
  proof (cases x)
    case (Inl e)
    then show ?thesis using assms False l by (simp add: AddResults_def)
  next
    case (Inr arrs)
    obtain aR aT aS where arrs: "arrs = (aR, aT, aS)" by (metis prod_cases3)
    show ?thesis using assms False l Inr arrs
      by (auto simp: AddResults_def emit_def Let_def)
  qed
qed

text \<open>
  Claim C7. Whenever \<open>AddResults\<close> sends a batch (its call adds the form post to the
  trace), the batch is not empty and the form holds the three arrays \<open>result\<close>,
  \<open>result_subtype\<close> and \<open>result_type\<close>, each as long as the batch: the values and the
  subtypes of the records in order, and one attribute-map text per record, which is
  \<open>{}\<close> at every position whose record has a nil map.
\<close>

theorem AddResults_parallel_arrays:
  "AddResults decode marshal crt results h reply w = (err, h', w') \<Longrightarrow>
   trace w' = trace w @ [HttpPostForm url data] \<Longrightarrow>
     results \<noteq> [] \<and>
     (\<exists>rs ss ts.
        map_of data ''result'' = Some (FArray rs) \<and>
        map_of data ''result_subtype'' = Some (FArray ss) \<and>
        map_of data ''result_type'' = Some (FArray ts) \<and>
        length rs = length results \<and> length ss = length results \<and> length ts = length results \<and>
        rs = map Result results \<and> ss = map Subtype results \<and>
        (\<forall>i<length results. Data (results ! i) = None \<longrightarrow> ts ! i = ''{}''))"
proof -
  assume run: "AddResults decode marshal crt results h reply w = (err, h', w')"
    and sent: "trace w' = trace w @ [HttpPostForm url data]"
  from AddResults_sent [OF run sent] obtain aR aT aS where
    ne: "results \<noteq> []" and
    l: "AddResults_loop marshal results h ([], [], []) = (Inr (aR, aT, aS), h')" and
    d: "data = [(''result_is_batch'', FText ''true''), (''result'', FArray aR),
                (''result_subtype'', FArray aS), (''result_type'', FArray aT)]
               @ context_fields (crt_Data crt)"
    by blast
  note S = AddResults_loop_spec [OF l]
  have r: "aR = map Result results" and s: "aS = map Subtype results" using S by simp_all
  obtain ts where ts: "aT = ts" "length ts = length results"
    "\<forall>i<length results. case Data (results ! i) of None \<Rightarrow> ts ! i = ''{}''
        | Some a \<Rightarrow> marshal (stringify_bools (cells h a)) = Inr (ts ! i)"
    using S by auto
  have nulls: "\<forall>i<length results. Data (results ! i) = None \<longrightarrow> ts ! i = ''{}''"
    using ts(3) by (auto split: option.splits)
  have m: "map_of data ''result'' = Some (FArray aR)"
    "map_of data ''result_subtype'' = Some (FArray aS)"
    "map_of data ''result_type'' = Some (FArray aT)"
    by (simp_all add: d)
  show ?thesis using ne m r s ts(1,2) nulls by simp
qed

text \<open>
  Claim C6. Whenever \<open>AddResults\<close> sends a batch, every entry of \<open>result_type\<close> that
  belongs to a record with a map is the JSON encoding of a map \<open>m\<close> in which no value
  is a boolean: every boolean of the record's map appears in \<open>m\<close>, under the same key,
  as the string \<open>true\<close> or \<open>false\<close>, and every other value appears unchanged.
\<close>

theorem AddResults_no_native_bool:
  "AddResults decode marshal crt results h reply w = (err, h', w') \<Longrightarrow>
   trace w' = trace w @ [HttpPostForm url data] \<Longrightarrow>
     (\<exists>ts. map_of data ''result_type'' = Some (FArray ts) \<and> length ts = length results \<and>
        (\<forall>i<length results. \<forall>a. Data (results ! i) = Some a \<longrightarrow>
           (\<exists>m. marshal m = Inr (ts ! i) \<and>
                (\<forall>k b. m k \<noteq> Some (VBool b)) \<and>
                (\<forall>k b. cells h a k = Some (VBool b) \<longrightarrow>
                        m k = Some (VString (if b then ''true'' else ''false''))) \<and>
                (\<forall>k. (\<forall>b. cells h a k \<noteq> Some (VBool b)) \<longrightarrow> m k = cells h a k))))"
proof -
  assume run: "AddResults decode marshal crt results h reply w = (err, h', w')"
    and sent: "trace w' = trace w @ [HttpPostForm url data]"
  from AddResults_sent [OF run sent] obtain aR aT aS where
    l: "AddResults_loop marshal results h ([], [], []) = (Inr (aR, aT, aS), h')" and
    d: "data = [(''result_is_batch'', FText ''true''), (''result'', FArray aR),
                (''result_subtype'', FArray aS), (''result_type'', FArray aT)]
               @ context_fields (crt_Data crt)"
    by blast
  note S = AddResults_loop_spec [OF l]
  have len: "length aT = length results" using S by auto
  have enc: "\<forall>i<length results. case Data (results ! i) of None \<Rightarrow> aT ! i = ''{}''
        | Some a \<Rightarrow> marshal (stringify_bools (cells h a)) = Inr (aT ! i)"
    using S by auto
  have each: "\<forall>i<length results. \<forall>a. Data (results ! i) = Some a \<longrightarrow>
           (\<exists>m. marshal m = Inr (aT ! i) \<and>
                (\<forall>k b. m k \<noteq> Some (VBool b)) \<and>
                (\<forall>k b. cells h a k = Some (VBool b) \<longrightarrow>
                        m k = Some (VString (if b then ''true'' else ''false''))) \<and>
                (\<forall>k. (\<forall>b. cells h a k \<noteq> Some (VBool b)) \<longrightarrow> m k = cells h a k))"
  proof (intro allI impI)
    fix i a assume i: "i < length results" and a: "Data (results ! i) = Some a"
    have "marshal (stringify_bools (cells h a)) = Inr (aT ! i)" using enc i a by auto
    then show "\<exists>m. marshal m = Inr (aT ! i) \<and>
                (\<forall>k b. m k \<noteq> Some (VBool b)) \<and>
                (\<forall>k b. cells h a k = Some (VBool b) \<longrightarrow>
                        m k = Some (VString (if b then ''true'' else ''false''))) \<and>
                (\<forall>k. (\<forall>b. cells h a k \<noteq> Some (VBool b)) \<longrightarrow> m k = cells h a k)"
      by (intro exI [of _ "stringify_bools (cells h a)"])
        (simp add: stringify_bools_no_bool stringify_bools_rendered stringify_bools_other)
  qed
  have "map_of data ''result_type'' = Some (FArray aT)" by (simp add: d)
  then show ?thesis using len each by blast
qed

text \<open>An empty batch sends nothing and is no error; the conversion is done in the
  caller's maps.\<close>

lemma AddResults_empty:
  "AddResults decode marshal crt [] h reply w = (None, h, w)"
  by (simp add: AddResults_def)

lemma AddResults_in_place:
  assumes "AddResults decode marshal crt results h reply w = (err, h', w')"
    and "trace w' = trace w @ [HttpPostForm url data]"
  shows "cells h' a = (if Some a \<in> Data ` set results then stringify_bools (cells h a) else cells h a)"
proof -
  from AddResults_sent [OF assms] obtain aR aT aS where
    l: "AddResults_loop marshal results h ([], [], []) = (Inr (aR, aT, aS), h')" by blast
  from AddResults_loop_spec [OF l] show ?thesis by blast
qed

text \<open>
  For a reply that was received and decoded, \<open>AddResults\<close> (like \<open>Log\<close> and
  \<open>MarkAsFinished\<close>, through the same check) returns an error exactly when the status is
  not 200, the return code is not zero or the error message is not empty.
  \<open>NewSample\<close> and \<open>ForgeRelationship\<close> decide on the decoded body alone.
\<close>

lemma check_response_iff:
  "check_response ((Some body, status, None), r) \<noteq> None \<longleftrightarrow>
     status \<noteq> 200 \<or> ReturnCode r \<noteq> 0 \<or> ErrorMsg r \<noteq> ''''"
  by (simp add: check_response_def)

lemma AddResults_error_iff:
  assumes "results \<noteq> []"
    and "AddResults_loop marshal results h ([], [], []) = (Inr arrs, h1)"
    and "decode body = (None, r)"
  shows "fst (AddResults decode marshal crt results h (Reply status body) w) \<noteq> None \<longleftrightarrow>
     status \<noteq> 200 \<or> ReturnCode r \<noteq> 0 \<or> ErrorMsg r \<noteq> ''''"
  using assms
  by (cases arrs) (simp add: AddResults_def FastPostForm_def check_response_def Let_def)

lemma NewSample_decided_by_body:
  assumes "fileData \<noteq> []" and "decode body = (None, r)"
  shows "fst (NewSample decode crt fileData fileName log_reply (Reply status body) w) =
           (if ReturnCode r \<noteq> 0 \<or> ErrorMsg r \<noteq> '''' then Inl body else Inr (resp_Id r))"
  using assms by (simp add: NewSample_def Let_def)

lemma ForgeRelationship_decided_by_body:
  assumes "decode body = (None, r)"
  shows "fst (ForgeRelationship decode crt ident (Reply status body) w) =
           (if (ReturnCode r \<noteq> 0 \<and> Message r \<noteq> ''Relationship already exists'') \<or> ErrorMsg r \<noteq> ''''
            then Some body else None)"
  using assms by (simp add: ForgeRelationship_def Let_def)

text \<open>
  Claim C5, as amended. For a reply that is received and whose body decodes into the
  default shape: \<open>Log\<close>, \<open>MarkAsRunning\<close>, \<open>MarkAsFinished\<close> and \<open>AddResults\<close> (for a batch
  that is not empty and whose maps encode) return an error if and only if the status is
  not 200, or the return code is not zero, or the error message is not empty.
  \<open>NewSample\<close> (for a file that is not empty) returns the body as an error when the
  return code is not zero or the error message is not empty, and the id with no error
  when the status is 200 and both are clear. \<open>ForgeRelationship\<close> returns the body as
  an error when the error message is not empty or the return code is not zero with a
  message other than \<open>Relationship already exists\<close>, and no error when the status
  is 200, the error message is empty and the return code is zero or comes with that
  message. (What \<open>NewSample\<close> and \<open>ForgeRelationship\<close> do with a clean body under a
  status other than 200 is not part of the statement.)
\<close>

theorem repository_call_errors:
  "(decode body = (None, r) \<longrightarrow>
      ((fst (Log decode crt level text (Reply status body) w) \<noteq> None) =
         (status \<noteq> 200 \<or> ReturnCode r \<noteq> 0 \<or> ErrorMsg r \<noteq> '''')) \<and>
      ((fst (MarkAsRunning decode crt (Reply status body) w) \<noteq> None) =
         (status \<noteq> 200 \<or> ReturnCode r \<noteq> 0 \<or> ErrorMsg r \<noteq> '''')) \<and>
      ((fst (MarkAsFinished decode crt (Reply status body) w) \<noteq> None) =
         (status \<noteq> 200 \<or> ReturnCode r \<noteq> 0 \<or> ErrorMsg r \<noteq> '''')) \<and>
      (results \<noteq> [] \<and> AddResults_loop marshal results h ([], [], []) = (Inr arrs, h1) \<longrightarrow>
         ((fst (AddResults decode marshal crt results h (Reply status body) w) \<noteq> None) =
            (status \<noteq> 200 \<or> ReturnCode r \<noteq> 0 \<or> ErrorMsg r \<noteq> ''''))) \<and>
      (fileData \<noteq> [] \<and> (ReturnCode r \<noteq> 0 \<or> ErrorMsg r \<noteq> '''') \<longrightarrow>
         fst (NewSample decode crt fileData fileName log_reply (Reply status body) w) = Inl body) \<and>
      (fileData \<noteq> [] \<and> status = 200 \<and> ReturnCode r = 0 \<and> ErrorMsg r = '''' \<longrightarrow>
         fst (NewSample decode crt fileData fileName log_reply (Reply status body) w) = Inr (resp_Id r)) \<and>
      ((ReturnCode r \<noteq> 0 \<and> Message r \<noteq> ''Relationship already exists'') \<or> ErrorMsg r \<noteq> '''' \<longrightarrow>
         fst (ForgeRelationship decode crt ident (Reply status body) w) = Some body) \<and>
      (status = 200 \<and> ErrorMsg r = '''' \<and>
       (ReturnCode r = 0 \<or> Message r = ''Relationship already exists'') \<longrightarrow>
         fst (ForgeRelationship decode crt ident (Reply status body) w) = None))"
proof (intro impI)
  assume d: "decode body = (None, r)"
  have c: "check_response (FastPostForm decode zero_response (Reply status body)) \<noteq> None
           \<longleftrightarrow> status \<noteq> 200 \<or> ReturnCode r \<noteq> 0 \<or> ErrorMsg r \<noteq> ''''"
    using d by (simp add: FastPostForm_def check_response_def)
  have l: "(fst (Log decode crt level text (Reply status body) w) \<noteq> None) =
         (status \<noteq> 200 \<or> ReturnCode r \<noteq> 0 \<or> ErrorMsg r \<noteq> '''')"
    using c by (simp add: Log_def Let_def)
  have mr: "(fst (MarkAsRunning decode crt (Reply status body) w) \<noteq> None) =
         (status \<noteq> 200 \<or> ReturnCode r \<noteq> 0 \<or> ErrorMsg r \<noteq> '''')"
    using c by (simp add: MarkAsRunning_def Let_def)
  have mf: "(fst (MarkAsFinished decode crt (Reply status body) w) \<noteq> None) =
         (status \<noteq> 200 \<or> ReturnCode r \<noteq> 0 \<or> ErrorMsg r \<noteq> '''')"
    using c by (simp add: MarkAsFinished_def Let_def)
  have a: "results \<noteq> [] \<and> AddResults_loop marshal results h ([], [], []) = (Inr arrs, h1) \<longrightarrow>
         ((fst (AddResults decode marshal crt results h (Reply status body) w) \<noteq> None) =
            (status \<noteq> 200 \<or> ReturnCode r \<noteq> 0 \<or> ErrorMsg r \<noteq> ''''))"
    using c by (cases arrs) (auto simp: AddResults_def Let_def)
  have n1: "fileData \<noteq> [] \<and> (ReturnCode r \<noteq> 0 \<or> ErrorMsg r \<noteq> '''') \<longrightarrow>
         fst (NewSample decode crt fileData fileName log_reply (Reply status body) w) = Inl body"
    using d by (auto simp: NewSample_def Let_def)
  have n2: "fileData \<noteq> [] \<and> status = 200 \<and> ReturnCode r = 0 \<and> ErrorMsg r = '''' \<longrightarrow>
         fst (NewSample decode crt fileData fileName log_reply (Reply status body) w) = Inr (resp_Id r)"
    using d by (simp add: NewSample_def Let_def)
  have f1: "(ReturnCode r \<noteq> 0 \<and> Message r \<noteq> ''Relationship already exists'') \<or> ErrorMsg r \<noteq> '''' \<longrightarrow>
         fst (ForgeRelationship decode crt ident (Reply status body) w) = Some body"
    using d by (auto simp: ForgeRelationship_def Let_def)
  have f2: "status = 200 \<and> ErrorMsg r = '''' \<and>
       (ReturnCode r = 0 \<or> Message r = ''Relationship already exists'') \<longrightarrow>
         fst (ForgeRelationship decode crt ident (Reply status body) w) = None"
    using d by (auto simp: ForgeRelationship_def Let_def)
  show "((fst (Log decode crt level text (Reply status body) w) \<noteq> None) =
         (status \<noteq> 200 \<or> ReturnCode r \<noteq> 0 \<or> ErrorMsg r \<noteq> '''')) \<and>
      ((fst (MarkAsRunning decode crt (Reply status body) w) \<noteq> None) =
         (status \<noteq> 200 \<or> ReturnCode r \<noteq> 0 \<or> ErrorMsg r \<noteq> '''')) \<and>
      ((fst (MarkAsFinished decode crt (Reply status body) w) \<noteq> None) =
         (status \<noteq> 200 \<or> ReturnCode r \<noteq> 0 \<or> ErrorMsg r \<noteq> '''')) \<and>
      (results \<noteq> [] \<and> AddResults_loop marshal results h ([], [], []) = (Inr arrs, h1) \<longrightarrow>
         ((fst (AddResults decode marshal crt results h (Reply status body) w) \<noteq> None) =
            (status \<noteq> 200 \<or> ReturnCode r \<noteq> 0 \<or> ErrorMsg r \<noteq> ''''))) \<and>
      (fileData \<noteq> [] \<and> (ReturnCode r \<noteq> 0 \<or> ErrorMsg r \<noteq> '''') \<longrightarrow>
         fst (NewSample decode crt fileData fileName log_reply (Reply status body) w) = Inl body) \<and>
      (fileData \<noteq> [] \<and> status = 200 \<and> ReturnCode r = 0 \<and> ErrorMsg r = '''' \<longrightarrow>
         fst (NewSample decode crt fileData fileName log_reply (Reply status body) w) = Inr (resp_Id r)) \<and>
      ((ReturnCode r \<noteq> 0 \<and> Message r \<noteq> ''Relationship already exists'') \<or> ErrorMsg r \<noteq> '''' \<longrightarrow>
         fst (ForgeRelationship decode crt ident (Reply status body) w) = Some body) \<and>
      (status = 200 \<and> ErrorMsg r = '''' \<and>
       (ReturnCode r = 0 \<or> Message r = ''Relationship already exists'') \<longrightarrow>
         fst (ForgeRelationship decode crt ident (Reply status body) w) = None)"
    using l mr mf a n1 n2 f1 f2 by blast
qed

text \<open>An instance: a reply with status 200, return code 1 and an error message.\<close>

theorem repository_call_errors_witness:
  "fst (MarkAsFinished
          (\<lambda>b. (None, \<lparr>ReturnCode = 1, ErrorMsg = ''denied'', Message = '''', resp_Id = '''', resp_Type = ''''\<rparr>))
          \<lparr>crt_URL = ''https://crits'',
            crt_Data = \<lparr>CritsURL = ''https://crits'', AnalysisId = ''A1'', ObjectType = ''Sample'',
                        ObjectId = ''o1'', Username = ''u'', ApiKey = ''k'', MD5 = ''d4'',
                        Source = ''src''\<rparr>\<rparr>
          (Reply 200 ''{..}'')
          \<lparr>trace = [], publish_err = (\<lambda>q. None), declare_err = (\<lambda>q. None)\<rparr>) \<noteq> None \<and>
   fst (NewSample
          (\<lambda>b. (None, \<lparr>ReturnCode = 1, ErrorMsg = ''denied'', Message = '''', resp_Id = '''', resp_Type = ''''\<rparr>))
          \<lparr>crt_URL = ''https://crits'',
            crt_Data = \<lparr>CritsURL = ''https://crits'', AnalysisId = ''A1'', ObjectType = ''Sample'',
                        ObjectId = ''o1'', Username = ''u'', ApiKey = ''k'', MD5 = ''d4'',
                        Source = ''src''\<rparr>\<rparr>
          ''MZ'' ''dropped.exe'' (Reply 200 '''') (Reply 200 ''{..}'')
          \<lparr>trace = [], publish_err = (\<lambda>q. None), declare_err = (\<lambda>q. None)\<rparr>) = Inl ''{..}''"
  using repository_call_errors
    [of "\<lambda>b. (None, \<lparr>ReturnCode = 1, ErrorMsg = ''denied'', Message = '''', resp_Id = '''', resp_Type = ''''\<rparr>)"
        "''{..}''"
        "\<lparr>ReturnCode = 1, ErrorMsg = ''denied'', Message = '''', resp_Id = '''', resp_Type = ''''\<rparr>"
        "\<lparr>crt_URL = ''https://crits'',
            crt_Data = \<lparr>CritsURL = ''https://crits'', AnalysisId = ''A1'', ObjectType = ''Sample'',
                        ObjectId = ''o1'', Username = ''u'', ApiKey = ''k'', MD5 = ''d4'',
                        Source = ''src''\<rparr>\<rparr>"
        "''info''" "''x''" 200
        "\<lparr>trace = [], publish_err = (\<lambda>q. None), declare_err = (\<lambda>q. None)\<rparr>"
        "[]" "\<lambda>m. Inr ''{}''" empty_heap "([], [], [])" empty_heap
        "''MZ''" "''dropped.exe''" "Reply 200 ''''" "''id''"]
  by simp

text \<open>
  The claim as stated fails where \<open>ForgeRelationship\<close> is told that the relationship
  exists already: the return code is not zero, and yet no error is returned.
\<close>

theorem ForgeRelationship_tolerated_counterexample:
  "ReturnCode \<lparr>ReturnCode = 1, ErrorMsg = '''', Message = ''Relationship already exists'',
               resp_Id = '''', resp_Type = ''''\<rparr> \<noteq> 0 \<and>
   fst (ForgeRelationship
          (\<lambda>b. (None, \<lparr>ReturnCode = 1, ErrorMsg = '''', Message = ''Relationship already exists'',
                         resp_Id = '''', resp_Type = ''''\<rparr>))
          \<lparr>crt_URL = ''https://crits'',
            crt_Data = \<lparr>CritsURL = ''https://crits'', AnalysisId = ''A1'', ObjectType = ''Sample'',
                        ObjectId = ''o1'', Username = ''u'', ApiKey = ''k'', MD5 = ''d4'',
                        Source = ''src''\<rparr>\<rparr>
          ''5f1'' (Reply 200 ''{..}'')
          \<lparr>trace = [], publish_err = (\<lambda>q. None), declare_err = (\<lambda>q. None)\<rparr>) = None"
  by (simp add: ForgeRelationship_def)

text \<open>
  \<open>NewSample\<close> never looks at the status. At a reply with status 400 whose body decodes
  without a return code, an error message or an id, it returns no error and the empty
  id, where the calls that go through \<open>check_response\<close> return an error.
\<close>

lemma NewSample_ignores_status:
  "fst (NewSample (\<lambda>body. (None, zero_response))
         \<lparr>crt_URL = ''https://crits'',
          crt_Data = \<lparr>CritsURL = ''https://crits'', AnalysisId = ''A1'', ObjectType = ''Sample'',
                      ObjectId = ''o1'', Username = ''u'', ApiKey = ''k'', MD5 = ''d4'',
                      Source = ''src''\<rparr>\<rparr>
         ''MZ'' ''dropped.exe'' (Reply 200 '''') (Reply 400 ''{}'')
         \<lparr>trace = [], publish_err = (\<lambda>q. None), declare_err = (\<lambda>q. None)\<rparr>)
   = Inr ''''"
  by (simp add: NewSample_def zero_response_def Let_def)

text \<open>Instances: a batch of a record with a nil map and a record with a map; and a batch
  of one record whose map holds a boolean and an integer.\<close>

theorem AddResults_parallel_arrays_witness:
  "\<exists>err h' w' url data ts.
     AddResults (\<lambda>body. (None, zero_response)) (\<lambda>m. Inr ''<json>'')
        \<lparr>crt_URL = ''https://crits'',
          crt_Data = \<lparr>CritsURL = ''https://crits'', AnalysisId = ''A1'', ObjectType = ''Sample'',
                      ObjectId = ''o1'', Username = ''u'', ApiKey = ''k'', MD5 = ''d4'',
                      Source = ''src''\<rparr>\<rparr>
        [\<lparr>Subtype = ''mutex'', Result = ''m1'', Data = None\<rparr>,
         \<lparr>Subtype = ''api_call'', Result = ''NtClose'', Data = Some 0\<rparr>]
        \<lparr>cells = (\<lambda>a. Map.empty)(0 := [''status'' \<mapsto> VBool True]), fresh = 1\<rparr>
        (Reply 200 ''ok'')
        \<lparr>trace = [], publish_err = (\<lambda>q. None), declare_err = (\<lambda>q. None)\<rparr> = (err, h', w') \<and>
     trace w' = [HttpPostForm url data] \<and>
     map_of data ''result'' = Some (FArray [''m1'', ''NtClose'']) \<and>
     map_of data ''result_subtype'' = Some (FArray [''mutex'', ''api_call'']) \<and>
     map_of data ''result_type'' = Some (FArray ts) \<and> length ts = 2 \<and> ts ! 0 = ''{}''"
proof -
  define results where "results =
        [\<lparr>Subtype = ''mutex'', Result = ''m1'', Data = None\<rparr>,
         \<lparr>Subtype = ''api_call'', Result = ''NtClose'', Data = Some 0\<rparr>]"
  define w where "w = \<lparr>trace = [], publish_err = (\<lambda>q::string. None::string option),
                        declare_err = (\<lambda>q::string. None::string option)\<rparr>"
  define crt where "crt = \<lparr>crt_URL = ''https://crits'',
          crt_Data = \<lparr>CritsURL = ''https://crits'', AnalysisId = ''A1'', ObjectType = ''Sample'',
                      ObjectId = ''o1'', Username = ''u'', ApiKey = ''k'', MD5 = ''d4'',
                      Source = ''src''\<rparr>\<rparr>"
  define h where "h = \<lparr>cells = (\<lambda>a. Map.empty)(0 := [''status'' \<mapsto> VBool True]), fresh = 1\<rparr>"
  have "\<exists>err h' w' url data.
      AddResults (\<lambda>body. (None, zero_response)) (\<lambda>m. Inr ''<json>'') crt results h (Reply 200 ''ok'') w
        = (err, h', w') \<and> trace w' = trace w @ [HttpPostForm url data]"
    by (simp add: results_def w_def AddResults_def FastPostForm_def check_response_def emit_def Let_def)
  then obtain err h' w' url data where
    run: "AddResults (\<lambda>body. (None, zero_response)) (\<lambda>m. Inr ''<json>'') crt results h (Reply 200 ''ok'') w
        = (err, h', w')" and sent: "trace w' = trace w @ [HttpPostForm url data]"
    by blast
  from AddResults_parallel_arrays [OF run sent] obtain rs ss ts where
    d: "map_of data ''result'' = Some (FArray rs)"
       "map_of data ''result_subtype'' = Some (FArray ss)"
       "map_of data ''result_type'' = Some (FArray ts)" and
    len: "length ts = length results" and
    c: "rs = map Result results" "ss = map Subtype results" and
    n: "\<forall>i<length results. Data (results ! i) = None \<longrightarrow> ts ! i = ''{}''"
    by blast
  have l2: "length ts = 2" using len by (simp add: results_def)
  have "0 < length results \<and> Data (results ! 0) = None" by (simp add: results_def)
  then have t0: "ts ! 0 = ''{}''" using n by blast
  have r: "rs = [''m1'', ''NtClose'']" "ss = [''mutex'', ''api_call'']"
    using c by (simp_all add: results_def)
  have "AddResults (\<lambda>body. (None, zero_response)) (\<lambda>m. Inr ''<json>'') crt results h (Reply 200 ''ok'') w
        = (err, h', w') \<and>
     trace w' = [HttpPostForm url data] \<and>
     map_of data ''result'' = Some (FArray [''m1'', ''NtClose'']) \<and>
     map_of data ''result_subtype'' = Some (FArray [''mutex'', ''api_call'']) \<and>
     map_of data ''result_type'' = Some (FArray ts) \<and> length ts = 2 \<and> ts ! 0 = ''{}''"
    using run sent d l2 t0 r by (simp add: w_def)
  then show ?thesis unfolding results_def w_def crt_def h_def by blast
qed

theorem AddResults_no_native_bool_witness:
  "\<exists>err h' w' url data ts m.
     AddResults (\<lambda>body. (None, zero_response))
        (\<lambda>m. if m ''status'' = Some (VString ''false'') then Inr ''<status: false>'' else Inl ''other'')
        \<lparr>crt_URL = ''https://crits'',
          crt_Data = \<lparr>CritsURL = ''https://crits'', AnalysisId = ''A1'', ObjectType = ''Sample'',
                      ObjectId = ''o1'', Username = ''u'', ApiKey = ''k'', MD5 = ''d4'',
                      Source = ''src''\<rparr>\<rparr>
        [\<lparr>Subtype = ''api_call'', Result = ''NtClose'', Data = Some 3\<rparr>]
        \<lparr>cells = (\<lambda>a. Map.empty)(3 := [''status'' \<mapsto> VBool False, ''repeated'' \<mapsto> VInt 2]), fresh = 4\<rparr>
        (Reply 200 ''ok'')
        \<lparr>trace = [], publish_err = (\<lambda>q. None), declare_err = (\<lambda>q. None)\<rparr> = (err, h', w') \<and>
     trace w' = [HttpPostForm url data] \<and>
     map_of data ''result_type'' = Some (FArray ts) \<and> length ts = 1 \<and>
     m ''status'' = Some (VString ''false'') \<and> m ''repeated'' = Some (VInt 2)"
proof -
  define results where "results = [\<lparr>Subtype = ''api_call'', Result = ''NtClose'', Data = Some (3::nat)\<rparr>]"
  define w where "w = \<lparr>trace = [], publish_err = (\<lambda>q::string. None::string option),
                        declare_err = (\<lambda>q::string. None::string option)\<rparr>"
  define crt where "crt = \<lparr>crt_URL = ''https://crits'',
          crt_Data = \<lparr>CritsURL = ''https://crits'', AnalysisId = ''A1'', ObjectType = ''Sample'',
                      ObjectId = ''o1'', Username = ''u'', ApiKey = ''k'', MD5 = ''d4'',
                      Source = ''src''\<rparr>\<rparr>"
  define h where "h = \<lparr>cells = (\<lambda>a. Map.empty)(3 := [''status'' \<mapsto> VBool False, ''repeated'' \<mapsto> VInt 2]), fresh = 4\<rparr>"
  define marshal :: "attrs \<Rightarrow> string + string" where
    "marshal = (\<lambda>m. if m ''status'' = Some (VString ''false'') then Inr ''<status: false>'' else Inl ''other'')"
  have "\<exists>err h' w' url data.
      AddResults (\<lambda>body. (None, zero_response)) marshal crt results h (Reply 200 ''ok'') w
        = (err, h', w') \<and> trace w' = trace w @ [HttpPostForm url data]"
    by (simp add: results_def w_def h_def marshal_def AddResults_def FastPostForm_def
        check_response_def emit_def Let_def stringify_bools_def FormatBool_def)
  then obtain err h' w' url data where
    run: "AddResults (\<lambda>body. (None, zero_response)) marshal crt results h (Reply 200 ''ok'') w
        = (err, h', w')" and sent: "trace w' = trace w @ [HttpPostForm url data]"
    by blast
  from AddResults_no_native_bool [OF run sent] obtain ts where
    d: "map_of data ''result_type'' = Some (FArray ts)" and len: "length ts = length results" and
    e: "\<forall>i<length results. \<forall>a. Data (results ! i) = Some a \<longrightarrow>
           (\<exists>m. marshal m = Inr (ts ! i) \<and>
                (\<forall>k b. m k \<noteq> Some (VBool b)) \<and>
                (\<forall>k b. cells h a k = Some (VBool b) \<longrightarrow>
                        m k = Some (VString (if b then ''true'' else ''false''))) \<and>
                (\<forall>k. (\<forall>b. cells h a k \<noteq> Some (VBool b)) \<longrightarrow> m k = cells h a k))"
    by blast
  have "0 < length results \<and> Data (results ! 0) = Some 3" by (simp add: results_def)
  then obtain m where
    m1: "\<forall>k b. cells h 3 k = Some (VBool b) \<longrightarrow> m k = Some (VString (if b then ''true'' else ''false''))"
    and m2: "\<forall>k. (\<forall>b. cells h 3 k \<noteq> Some (VBool b)) \<longrightarrow> m k = cells h 3 k"
    using e by blast
  have "cells h 3 ''status'' = Some (VBool False)" by (simp add: h_def)
  then have s: "m ''status'' = Some (VString ''false'')" using m1 by fastforce
  have "cells h 3 ''repeated'' = Some (VInt 2)" by (simp add: h_def)
  then have r: "m ''repeated'' = Some (VInt 2)" using m2 by simp
  have l1: "length ts = 1" using len by (simp add: results_def)
  have "AddResults (\<lambda>body. (None, zero_response)) marshal crt results h (Reply 200 ''ok'') w = (err, h', w') \<and>
     trace w' = [HttpPostForm url data] \<and>
     map_of data ''result_type'' = Some (FArray ts) \<and> length ts = 1 \<and>
     m ''status'' = Some (VString ''false'') \<and> m ''repeated'' = Some (VInt 2)"
    using run sent d l1 s r by (simp add: w_def)
  then show ?thesis unfolding results_def w_def crt_def h_def marshal_def by blast
qed

section \<open>Properties of the Feeder\<close>

text \<open>\<open>GetStatus\<close> returns a nil status exactly when it returns an error.\<close>

lemma GetStatus_nil_iff_error:
  "GetStatus decode reply = Inr (st, err) \<Longrightarrow> (st = None \<longleftrightarrow> err \<noteq> None)"
  by (auto simp: GetStatus_def FastGet_def split: http_reply.splits prod.splits if_splits option.splits)

lemma slowdown_cond_nil: "slowdown_cond f None = Inl NilDereference"
  by (simp add: slowdown_cond_def)

lemma admission_loop_nil:
  "admission_loop f decode None replies w = (Panicked NilDereference, w)"
  by (simp add: admission_loop.simps slowdown_cond_nil)

text \<open>
  One turn of the admission loop, when either condition holds and the slowdown line can
  be formatted: the line is logged, the Feeder sleeps 30 seconds and asks again.
\<close>

lemma admission_loop_step:
  assumes "slowdown_cond f cStatus = Inr True" and "slowdown_line cStatus = Inr line"
  shows "admission_loop f decode cStatus (reply # rest) w =
           (case GetStatus decode reply of
              Inl p \<Rightarrow> (Panicked p, emit (Slept 30) (emit (Info line) w))
            | Inr (st, err) \<Rightarrow>
                admission_loop f decode st rest
                  (emit (Polled st) (emit (Slept 30) (emit (Info line) w))))"
  using assms by (simp add: admission_loop.simps Let_def split: sum.splits prod.splits)

text \<open>
  What the loop adds to the trace: log lines, sleeps of 30 seconds and polls. If it is
  left normally, the status polled last (or the one it started with) lets the upload
  pass; unless it ends in a nil dereference, no poll returned a nil status.
\<close>

lemma admission_loop_trace:
  "admission_loop f decode st replies w = (e, w') \<Longrightarrow>
     \<exists>evs. trace w' = trace w @ evs \<and>
       (\<forall>ev\<in>set evs. (\<exists>l. ev = Info l) \<or> ev = Slept 30 \<or> (\<exists>s. ev = Polled s)) \<and>
       (e = Returned \<longrightarrow>
          (\<exists>st'. slowdown_cond f st' = Inr False \<and>
                 (evs = [] \<and> st' = st \<or> (\<exists>pre. evs = pre @ [Polled st'])))) \<and>
       (e \<noteq> Panicked NilDereference \<longrightarrow> st \<noteq> None \<and> Polled None \<notin> set evs)"
proof (induction f decode st replies w arbitrary: e w' rule: admission_loop.induct)
  case (1 f decode cStatus replies w)
  show ?case
  proof (cases "slowdown_cond f cStatus")
    case (Inl p)
    then have "e = Panicked p" "w' = w" using "1.prems" by (simp_all add: admission_loop.simps)
    moreover have "p = NilDereference"
      using Inl by (auto simp: slowdown_cond_def split: option.splits if_splits)
    ultimately show ?thesis by simp
  next
    case (Inr b)
    note cond = this
    have ne: "cStatus \<noteq> None" using Inr by (auto simp: slowdown_cond_def split: option.splits)
    show ?thesis
    proof (cases b)
      case False
      then have "e = Returned" "w' = w" using "1.prems" cond by (simp_all add: admission_loop.simps)
      then show ?thesis using cond False ne by auto
    next
      case True
      show ?thesis
      proof (cases "slowdown_line cStatus")
        case (Inl p)
        then have "e = Panicked p" "w' = w" using "1.prems" cond True by (simp_all add: admission_loop.simps)
        moreover have "p = NilDereference"
          using Inl by (auto simp: slowdown_line_def split: option.splits)
        ultimately show ?thesis by simp
      next
        case (Inr line)
        let ?w1 = "emit (Slept 30) (emit (Info line) w)"
        have t1: "trace ?w1 = trace w @ [Info line, Slept 30]" by (simp add: emit_def)
        show ?thesis
        proof (cases replies)
          case Nil
          then have "e = Waiting" "w' = ?w1" using "1.prems" cond True Inr by (simp_all add: admission_loop.simps Let_def)
          then show ?thesis using t1 ne by auto
        next
          case (Cons reply rest)
          show ?thesis
          proof (cases "GetStatus decode reply")
            case (Inl p)
            then have e: "e = Panicked p" "w' = ?w1"
              using "1.prems" cond True Inr Cons by (simp_all add: admission_loop.simps Let_def)
            have "p = NilDereference"
              using Inl by (auto simp: GetStatus_def FastGet_def
                  split: http_reply.splits prod.splits if_splits option.splits)
            then show ?thesis using e t1 by auto
          next
            case (Inr se)
            obtain st err where se: "se = (st, err)" by (cases se)
            have rec: "admission_loop f decode st rest (emit (Polled st) ?w1) = (e, w')"
              using "1.prems" cond True \<open>slowdown_line cStatus = Inr line\<close> Cons Inr se
              by (simp add: admission_loop.simps Let_def)
            have "\<exists>evs. trace w' = trace (emit (Polled st) ?w1) @ evs \<and>
               (\<forall>ev\<in>set evs. (\<exists>l. ev = Info l) \<or> ev = Slept 30 \<or> (\<exists>s. ev = Polled s)) \<and>
               (e = Returned \<longrightarrow>
                  (\<exists>st'. slowdown_cond f st' = Inr False \<and>
                         (evs = [] \<and> st' = st \<or> (\<exists>pre. evs = pre @ [Polled st'])))) \<and>
               (e \<noteq> Panicked NilDereference \<longrightarrow> st \<noteq> None \<and> Polled None \<notin> set evs)"
              using "1.IH" [OF cond _ \<open>slowdown_line cStatus = Inr line\<close> refl Cons Inr se [symmetric] rec] True by simp
            then obtain evs where evs: "trace w' = trace (emit (Polled st) ?w1) @ evs"
              "\<forall>ev\<in>set evs. (\<exists>l. ev = Info l) \<or> ev = Slept 30 \<or> (\<exists>s. ev = Polled s)"
              "e = Returned \<longrightarrow>
                  (\<exists>st'. slowdown_cond f st' = Inr False \<and>
                         (evs = [] \<and> st' = st \<or> (\<exists>pre. evs = pre @ [Polled st'])))"
              "e \<noteq> Panicked NilDereference \<longrightarrow> st \<noteq> None \<and> Polled None \<notin> set evs"
              by blast
            let ?evs = "[Info line, Slept 30, Polled st] @ evs"
            have a: "trace w' = trace w @ ?evs" using evs(1) by (simp add: emit_def)
            have b: "\<forall>ev\<in>set ?evs. (\<exists>l. ev = Info l) \<or> ev = Slept 30 \<or> (\<exists>s. ev = Polled s)"
              using evs(2) by auto
            have c: "e = Returned \<longrightarrow>
                  (\<exists>st'. slowdown_cond f st' = Inr False \<and>
                         (?evs = [] \<and> st' = cStatus \<or> (\<exists>pre. ?evs = pre @ [Polled st'])))"
            proof
              assume "e = Returned"
              then obtain st' where s: "slowdown_cond f st' = Inr False"
                "evs = [] \<and> st' = st \<or> (\<exists>pre. evs = pre @ [Polled st'])"
                using evs(3) by blast
              from s(2) have "\<exists>pre. ?evs = pre @ [Polled st']"
              proof
                assume "evs = [] \<and> st' = st"
                then have "?evs = [Info line, Slept 30] @ [Polled st']" by simp
                then show ?thesis by blast
              next
                assume "\<exists>pre. evs = pre @ [Polled st']"
                then obtain pre where "evs = pre @ [Polled st']" by blast
                then have "?evs = ([Info line, Slept 30, Polled st] @ pre) @ [Polled st']" by simp
                then show ?thesis by blast
              qed
              then show "\<exists>st'. slowdown_cond f st' = Inr False \<and>
                         (?evs = [] \<and> st' = cStatus \<or> (\<exists>pre. ?evs = pre @ [Polled st']))"
                using s(1) by blast
            qed
            have d: "e \<noteq> Panicked NilDereference \<longrightarrow> cStatus \<noteq> None \<and> Polled None \<notin> set ?evs"
              using evs(4) ne by auto
            show ?thesis using a b c d by blast
          qed
        qed
      qed
    qed
  qed
qed

lemma GetStatus_panic:
  "GetStatus decode reply = Inl p \<Longrightarrow> p = NilDereference"
  by (auto simp: GetStatus_def FastGet_def split: http_reply.splits prod.splits if_splits option.splits)

lemma NackOnError_trace:
  "NackOnError marshal c err desc msg w = Inl (p, w') \<Longrightarrow> w' = w"
  "NackOnError marshal c err desc msg w = Inr (b, w') \<Longrightarrow>
     \<exists>tail. trace w' = trace w @ tail \<and>
       (\<forall>ev\<in>set tail. (\<exists>q x. ev = Published q x) \<or> (\<exists>t x y. ev = Nacked t x y))"
  by (auto simp: NackOnError_def Send_def FailOnError_def emit_def Let_def
      split: option.splits sum.splits)

lemma Send_trace:
  "Send q x w = Inl (p, w') \<Longrightarrow> w' = w"
  "Send q x w = Inr w' \<Longrightarrow> trace w' = trace w @ [Published q x]"
  by (auto simp: Send_def FailOnError_def emit_def split: option.splits)

text \<open>After admission: the upload, then only bus traffic.\<close>

lemma upload_trace:
  "upload f marshal marshal_req m fileBytes msg newtask w1 = (e, w') \<Longrightarrow>
     \<exists>tail. trace w' = trace w1 @
            [HttpPostFile (cuckoo_URL f @ ''/tasks/create/file'') ''file''
               (index_map (File m) ''name'') fileBytes (Payload m)] @ tail \<and>
          (\<forall>ev\<in>set tail. (\<exists>q x. ev = Published q x) \<or> (\<exists>t x. ev = Acked t x)
                           \<or> (\<exists>t x y. ev = Nacked t x y))"
  by (auto simp: upload_def NackOnError_def Send_def FailOnError_def emit_def Let_def
      split: sum.splits option.splits prod.splits bool.splits)

lemma handleSubmit_admitted:
  assumes g: "GetStatus decode reply = Inr (cStatus, err)"
    and a: "admission_loop f decode cStatus rest (emit (Polled cStatus) w) = (Returned, w1)"
  shows "handleSubmit f decode marshal marshal_req m fileBytes msg (reply # rest) newtask w =
           upload f marshal marshal_req m fileBytes msg newtask w1"
  using g a by (simp add: handleSubmit_def)

lemma handleSubmit_not_admitted:
  assumes g: "GetStatus decode reply = Inr (cStatus, err)"
    and a: "admission_loop f decode cStatus rest (emit (Polled cStatus) w) = (e1, w1)"
    and ne: "e1 \<noteq> Returned"
  shows "handleSubmit f decode marshal marshal_req m fileBytes msg (reply # rest) newtask w = (e1, w1)"
  using g a ne by (cases e1) (simp_all add: handleSubmit_def)

text \<open>
  The shape of every run of \<open>handleSubmit\<close>: either it does not get past admission and
  the trace has polls, log lines and sleeps only; or it uploads once, straight after
  the poll of a status that passes both conditions, and then only talks to the bus.
\<close>

lemma handleSubmit_shape:
  assumes r: "handleSubmit f decode marshal marshal_req m fileBytes msg replies newtask w = (e, w')"
  shows "(\<exists>evs. trace w' = trace w @ evs \<and>
            (\<forall>ev\<in>set evs. (\<exists>l. ev = Info l) \<or> ev = Slept 30 \<or> (\<exists>s. ev = Polled s)) \<and>
            e \<noteq> Returned \<and>
            (e \<noteq> Panicked NilDereference \<longrightarrow> Polled None \<notin> set evs)) \<or>
         (\<exists>pre st tail. trace w' = trace w @ pre @
              [Polled st,
               HttpPostFile (cuckoo_URL f @ ''/tasks/create/file'') ''file''
                 (index_map (File m) ''name'') fileBytes (Payload m)] @ tail \<and>
            slowdown_cond f st = Inr False \<and>
            (\<forall>ev\<in>set pre. (\<exists>l. ev = Info l) \<or> ev = Slept 30 \<or> (\<exists>s. ev = Polled s)) \<and>
            (\<forall>ev\<in>set tail. (\<exists>q x. ev = Published q x) \<or> (\<exists>t x. ev = Acked t x)
                             \<or> (\<exists>t x y. ev = Nacked t x y)) \<and>
            Polled None \<notin> set pre)"
proof (cases replies)
  case Nil
  then have "e = Waiting" "w' = w" using r by (simp_all add: handleSubmit_def)
  then show ?thesis by simp
next
  case (Cons reply rest)
  show ?thesis
  proof (cases "GetStatus decode reply")
    case (Inl p)
    then have "e = Panicked p" "w' = w" using r Cons by (simp_all add: handleSubmit_def)
    moreover have "p = NilDereference" using Inl by (rule GetStatus_panic)
    ultimately show ?thesis by simp
  next
    case (Inr se)
    obtain cStatus err where g: "GetStatus decode reply = Inr (cStatus, err)"
      using Inr by (cases se) simp
    obtain e1 w1 where a: "admission_loop f decode cStatus rest (emit (Polled cStatus) w) = (e1, w1)"
      by (metis surj_pair)
    from admission_loop_trace [OF a] obtain evs where evs:
      "trace w1 = trace (emit (Polled cStatus) w) @ evs"
      "\<forall>ev\<in>set evs. (\<exists>l. ev = Info l) \<or> ev = Slept 30 \<or> (\<exists>s. ev = Polled s)"
      "e1 = Returned \<longrightarrow>
          (\<exists>st'. slowdown_cond f st' = Inr False \<and>
                 (evs = [] \<and> st' = cStatus \<or> (\<exists>pre. evs = pre @ [Polled st'])))"
      "e1 \<noteq> Panicked NilDereference \<longrightarrow> cStatus \<noteq> None \<and> Polled None \<notin> set evs"
      by blast
    have t1: "trace w1 = trace w @ Polled cStatus # evs" using evs(1) by (simp add: emit_def)
    show ?thesis
    proof (cases "e1 = Returned")
      case False
      then have "e = e1" "w' = w1"
        using handleSubmit_not_admitted [OF g a False] r Cons by simp_all
      then have "trace w' = trace w @ Polled cStatus # evs \<and>
            (\<forall>ev\<in>set (Polled cStatus # evs). (\<exists>l. ev = Info l) \<or> ev = Slept 30 \<or> (\<exists>s. ev = Polled s)) \<and>
            e \<noteq> Returned \<and>
            (e \<noteq> Panicked NilDereference \<longrightarrow> Polled None \<notin> set (Polled cStatus # evs))"
        using t1 evs(2,4) False by auto
      then show ?thesis by blast
    next
      case True
      have a': "admission_loop f decode cStatus rest (emit (Polled cStatus) w) = (Returned, w1)"
        using a True by simp
      have up: "upload f marshal marshal_req m fileBytes msg newtask w1 = (e, w')"
        using handleSubmit_admitted [OF g a', of marshal marshal_req m fileBytes msg newtask] r Cons
        by simp
      from upload_trace [OF up] obtain tail where tail:
        "trace w' = trace w1 @
            [HttpPostFile (cuckoo_URL f @ ''/tasks/create/file'') ''file''
               (index_map (File m) ''name'') fileBytes (Payload m)] @ tail"
        "\<forall>ev\<in>set tail. (\<exists>q x. ev = Published q x) \<or> (\<exists>t x. ev = Acked t x)
                           \<or> (\<exists>t x y. ev = Nacked t x y)"
        by blast
      obtain st' where st: "slowdown_cond f st' = Inr False"
        "evs = [] \<and> st' = cStatus \<or> (\<exists>pre. evs = pre @ [Polled st'])"
        using evs(3) True by blast
      have nn: "cStatus \<noteq> None" "Polled None \<notin> set evs" using evs(4) True by simp_all
      from st(2) obtain pre where pre: "Polled cStatus # evs = pre @ [Polled st']"
      proof
        assume "evs = [] \<and> st' = cStatus"
        then have "Polled cStatus # evs = [] @ [Polled st']" by simp
        then show ?thesis using that by blast
      next
        assume "\<exists>p. evs = p @ [Polled st']"
        then obtain p where "evs = p @ [Polled st']" by blast
        then have "Polled cStatus # evs = (Polled cStatus # p) @ [Polled st']" by simp
        then show ?thesis using that by blast
      qed
      have setpre: "set pre \<subseteq> set (Polled cStatus # evs)" using pre by (metis set_append Un_upper1)
      have a1: "trace w' = trace w @ pre @
              [Polled st',
               HttpPostFile (cuckoo_URL f @ ''/tasks/create/file'') ''file''
                 (index_map (File m) ''name'') fileBytes (Payload m)] @ tail"
        using tail(1) t1 pre by simp
      have a2: "\<forall>ev\<in>set pre. (\<exists>l. ev = Info l) \<or> ev = Slept 30 \<or> (\<exists>s. ev = Polled s)"
        using setpre evs(2) by auto
      have a3: "Polled None \<notin> set pre" using setpre nn by auto
      show ?thesis using a1 st(1) a2 tail(2) a3 by blast
    qed
  qed
qed

text \<open>
  No upload is made while the status polled last holds either condition: an upload in
  the trace of a run comes directly after the poll of a status for which the loop
  condition is false, and no upload comes before it.
\<close>

lemma handleSubmit_upload_only_when_admitted:
  assumes r: "handleSubmit f decode marshal marshal_req m fileBytes msg replies newtask w = (e, w')"
    and t: "trace w' = trace w @ evs"
    and u: "HttpPostFile url field name bytes params \<in> set evs"
  shows "\<exists>pre st tail. evs = pre @ [Polled st, HttpPostFile url field name bytes params] @ tail \<and>
           slowdown_cond f st = Inr False \<and>
           (\<forall>ev\<in>set pre. (\<exists>l. ev = Info l) \<or> ev = Slept 30 \<or> (\<exists>s. ev = Polled s))"
proof -
  from handleSubmit_shape [OF r] show ?thesis
  proof
    assume "\<exists>evs. trace w' = trace w @ evs \<and>
            (\<forall>ev\<in>set evs. (\<exists>l. ev = Info l) \<or> ev = Slept 30 \<or> (\<exists>s. ev = Polled s)) \<and>
            e \<noteq> Returned \<and>
            (e \<noteq> Panicked NilDereference \<longrightarrow> Polled None \<notin> set evs)"
    then have "\<forall>ev\<in>set evs. (\<exists>l. ev = Info l) \<or> ev = Slept 30 \<or> (\<exists>s. ev = Polled s)"
      using t by auto
    then show ?thesis using u by auto
  next
    assume "\<exists>pre st tail. trace w' = trace w @ pre @
              [Polled st,
               HttpPostFile (cuckoo_URL f @ ''/tasks/create/file'') ''file''
                 (index_map (File m) ''name'') fileBytes (Payload m)] @ tail \<and>
            slowdown_cond f st = Inr False \<and>
            (\<forall>ev\<in>set pre. (\<exists>l. ev = Info l) \<or> ev = Slept 30 \<or> (\<exists>s. ev = Polled s)) \<and>
            (\<forall>ev\<in>set tail. (\<exists>q x. ev = Published q x) \<or> (\<exists>t x. ev = Acked t x)
                             \<or> (\<exists>t x y. ev = Nacked t x y)) \<and>
            Polled None \<notin> set pre"
    then obtain pre st tail where s:
      "trace w' = trace w @ pre @
              [Polled st,
               HttpPostFile (cuckoo_URL f @ ''/tasks/create/file'') ''file''
                 (index_map (File m) ''name'') fileBytes (Payload m)] @ tail"
      "slowdown_cond f st = Inr False"
      "\<forall>ev\<in>set pre. (\<exists>l. ev = Info l) \<or> ev = Slept 30 \<or> (\<exists>s. ev = Polled s)"
      "\<forall>ev\<in>set tail. (\<exists>q x. ev = Published q x) \<or> (\<exists>t x. ev = Acked t x)
                             \<or> (\<exists>t x y. ev = Nacked t x y)"
      by blast
    have evs: "evs = pre @
              [Polled st,
               HttpPostFile (cuckoo_URL f @ ''/tasks/create/file'') ''file''
                 (index_map (File m) ''name'') fileBytes (Payload m)] @ tail"
      using s(1) t by simp
    have "HttpPostFile url field name bytes params =
            HttpPostFile (cuckoo_URL f @ ''/tasks/create/file'') ''file''
                 (index_map (File m) ''name'') fileBytes (Payload m)"
      using u s(3,4) unfolding evs by auto
    then show ?thesis using evs s(2,3) by blast
  qed
qed

text \<open>
  Claim C10. \<open>handleSubmit\<close> drops the error of every \<open>GetStatus\<close> call. If the first
  call fails (a nil status, hence an error), the loop condition dereferences nil and
  the run panics right after the poll; if a call inside the loop fails, the same happens
  after the log line and the sleep. So a run that does not end in a nil dereference
  has had a status from every \<open>GetStatus\<close> call it made: no poll in its trace is nil.
\<close>

theorem handleSubmit_GetStatus_unguarded:
  "(GetStatus decode reply = Inr (None, err) \<longrightarrow>
      err \<noteq> None \<and>
      handleSubmit f decode marshal marshal_req m fileBytes msg (reply # rest) newtask w =
        (Panicked NilDereference, emit (Polled None) w)) \<and>
   (slowdown_cond f cStatus = Inr True \<and> slowdown_line cStatus = Inr line \<and>
    GetStatus decode reply = Inr (None, err) \<longrightarrow>
      admission_loop f decode cStatus (reply # rest) w =
        (Panicked NilDereference, emit (Polled None) (emit (Slept 30) (emit (Info line) w)))) \<and>
   (handleSubmit f decode marshal marshal_req m fileBytes msg replies newtask w = (e, w') \<and>
    e \<noteq> Panicked NilDereference \<longrightarrow>
      (\<exists>evs. trace w' = trace w @ evs \<and> Polled None \<notin> set evs))"
proof (intro conjI impI)
  assume g: "GetStatus decode reply = Inr (None, err)"
  show "err \<noteq> None" using GetStatus_nil_iff_error [OF g] by simp
  show "handleSubmit f decode marshal marshal_req m fileBytes msg (reply # rest) newtask w =
        (Panicked NilDereference, emit (Polled None) w)"
    using g by (simp add: handleSubmit_def admission_loop_nil)
next
  assume a: "slowdown_cond f cStatus = Inr True \<and> slowdown_line cStatus = Inr line \<and>
    GetStatus decode reply = Inr (None, err)"
  then show "admission_loop f decode cStatus (reply # rest) w =
        (Panicked NilDereference, emit (Polled None) (emit (Slept 30) (emit (Info line) w)))"
    by (simp add: admission_loop_step admission_loop_nil)
next
  assume a: "handleSubmit f decode marshal marshal_req m fileBytes msg replies newtask w = (e, w') \<and>
    e \<noteq> Panicked NilDereference"
  then have r: "handleSubmit f decode marshal marshal_req m fileBytes msg replies newtask w = (e, w')"
    and ne: "e \<noteq> Panicked NilDereference" by simp_all
  from handleSubmit_shape [OF r] show "\<exists>evs. trace w' = trace w @ evs \<and> Polled None \<notin> set evs"
  proof
    assume "\<exists>evs. trace w' = trace w @ evs \<and>
            (\<forall>ev\<in>set evs. (\<exists>l. ev = Info l) \<or> ev = Slept 30 \<or> (\<exists>s. ev = Polled s)) \<and>
            e \<noteq> Returned \<and>
            (e \<noteq> Panicked NilDereference \<longrightarrow> Polled None \<notin> set evs)"
    then show ?thesis using ne by blast
  next
    assume "\<exists>pre st tail. trace w' = trace w @ pre @
              [Polled st,
               HttpPostFile (cuckoo_URL f @ ''/tasks/create/file'') ''file''
                 (index_map (File m) ''name'') fileBytes (Payload m)] @ tail \<and>
            slowdown_cond f st = Inr False \<and>
            (\<forall>ev\<in>set pre. (\<exists>l. ev = Info l) \<or> ev = Slept 30 \<or> (\<exists>s. ev = Polled s)) \<and>
            (\<forall>ev\<in>set tail. (\<exists>q x. ev = Published q x) \<or> (\<exists>t x. ev = Acked t x)
                             \<or> (\<exists>t x y. ev = Nacked t x y)) \<and>
            Polled None \<notin> set pre"
    then obtain pre st tail where s:
      "trace w' = trace w @ pre @
              [Polled st,
               HttpPostFile (cuckoo_URL f @ ''/tasks/create/file'') ''file''
                 (index_map (File m) ''name'') fileBytes (Payload m)] @ tail"
      "slowdown_cond f st = Inr False"
      "\<forall>ev\<in>set tail. (\<exists>q x. ev = Published q x) \<or> (\<exists>t x. ev = Acked t x)
                             \<or> (\<exists>t x y. ev = Nacked t x y)"
      "Polled None \<notin> set pre"
      by blast
    have "st \<noteq> None" using s(2) by (cases st) (simp_all add: slowdown_cond_nil)
    then have "Polled None \<notin> set (pre @
              [Polled st,
               HttpPostFile (cuckoo_URL f @ ''/tasks/create/file'') ''file''
                 (index_map (File m) ''name'') fileBytes (Payload m)] @ tail)"
      using s(3,4) by auto
    then show ?thesis using s(1) by blast
  qed
qed

text \<open>An instance: the Sandbox refuses the connection of the first status request.\<close>

theorem handleSubmit_GetStatus_unguarded_witness:
  "GetStatus (\<lambda>body. (None, zero_status)) (TransportError ''connection refused'')
     = Inr (None, Some ''connection refused'') \<and>
   handleSubmit
     \<lparr>core = \<lparr>ServiceName = ''feed_cuckoo'', failed = ''failed''\<rparr>, cuckoo_URL = ''http://cuckoo'',
      producer = ''pending'', checkFreeSpace = False, maxPending = 5\<rparr>
     (\<lambda>body. (None, zero_status)) Msg CuckooURL
     \<lparr>Payload = [], File = [''name'' \<mapsto> ''a.exe''], req_CritsData = None\<rparr>
     ''MZ'' \<lparr>RoutingKey = ''submit'', Body = ''{}'', DeliveryTag = 1\<rparr>
     [TransportError ''connection refused''] (Inr 1)
     \<lparr>trace = [], publish_err = (\<lambda>q. None), declare_err = (\<lambda>q. None)\<rparr>
   = (Panicked NilDereference,
      \<lparr>trace = [Polled None], publish_err = (\<lambda>q. None), declare_err = (\<lambda>q. None)\<rparr>)"
proof -
  have g: "GetStatus (\<lambda>body. (None, zero_status)) (TransportError ''connection refused'')
     = Inr (None, Some ''connection refused'')"
    by (simp add: GetStatus_def FastGet_def)
  from handleSubmit_GetStatus_unguarded
    [of "\<lambda>body. (None, zero_status)" "TransportError ''connection refused''"
        "Some ''connection refused''"
        "\<lparr>core = \<lparr>ServiceName = ''feed_cuckoo'', failed = ''failed''\<rparr>, cuckoo_URL = ''http://cuckoo'',
          producer = ''pending'', checkFreeSpace = False, maxPending = 5\<rparr>"
        Msg CuckooURL
        "\<lparr>Payload = [], File = [''name'' \<mapsto> ''a.exe''], req_CritsData = None\<rparr>"
        "''MZ''" "\<lparr>RoutingKey = ''submit'', Body = ''{}'', DeliveryTag = 1\<rparr>"
        "[]" "Inr 1"
        "\<lparr>trace = [], publish_err = (\<lambda>q. None), declare_err = (\<lambda>q. None)\<rparr>"]
    g
  show ?thesis by (simp add: emit_def)
qed

text \<open>
  Claim C3, at a status without a \<open>diskspace\<close> section (what a Sandbox of version 1.2
  reports), with \<open>CheckFreeSpace\<close> off and as many pending tasks as \<open>MaxPending\<close>. The
  first condition holds, so the claim has the Feeder log a slowdown line, sleep 30
  seconds and poll again (a second answer is at hand). The arguments of the log line
  dereference the missing section: the run panics after the first poll, with no log
  line, no sleep and no second poll.
\<close>

theorem handleSubmit_slowdown_without_diskspace:
  "handleSubmit
     \<lparr>core = \<lparr>ServiceName = ''feed_cuckoo'', failed = ''failed''\<rparr>, cuckoo_URL = ''http://cuckoo'',
      producer = ''pending'', checkFreeSpace = False, maxPending = 5\<rparr>
     (\<lambda>body. (None, \<lparr>Tasks = Some \<lparr>Running = 1, Pending = 5\<rparr>, Diskspace = None\<rparr>))
     Msg CuckooURL
     \<lparr>Payload = [], File = [''name'' \<mapsto> ''a.exe''], req_CritsData = None\<rparr>
     ''MZ'' \<lparr>RoutingKey = ''submit'', Body = ''{}'', DeliveryTag = 1\<rparr>
     [Reply 200 ''{}'', Reply 200 ''{}''] (Inr 1)
     \<lparr>trace = [], publish_err = (\<lambda>q. None), declare_err = (\<lambda>q. None)\<rparr>
   = (Panicked NilDereference,
      \<lparr>trace = [Polled (Some \<lparr>Tasks = Some \<lparr>Running = 1, Pending = 5\<rparr>, Diskspace = None\<rparr>)],
       publish_err = (\<lambda>q. None), declare_err = (\<lambda>q. None)\<rparr>)"
  by (simp add: handleSubmit_def GetStatus_def FastGet_def admission_loop.simps slowdown_cond_def
      slowdown_line_def emit_def)

text \<open>With a status that carries the disk space, the same run logs, sleeps and polls again.\<close>

lemma handleSubmit_slowdown_with_diskspace:
  "handleSubmit
     \<lparr>core = \<lparr>ServiceName = ''feed_cuckoo'', failed = ''failed''\<rparr>, cuckoo_URL = ''http://cuckoo'',
      producer = ''pending'', checkFreeSpace = False, maxPending = 5\<rparr>
     (\<lambda>body. (None, \<lparr>Tasks = Some \<lparr>Running = 1, Pending = 5\<rparr>,
                       Diskspace = Some \<lparr>Analyses = Some \<lparr>Total = 0, Free = 2097152, Used = 0\<rparr>\<rparr>\<rparr>))
     Msg CuckooURL
     \<lparr>Payload = [], File = [''name'' \<mapsto> ''a.exe''], req_CritsData = None\<rparr>
     ''MZ'' \<lparr>RoutingKey = ''submit'', Body = ''{}'', DeliveryTag = 1\<rparr>
     [Reply 200 ''{}''] (Inr 1)
     \<lparr>trace = [], publish_err = (\<lambda>q. None), declare_err = (\<lambda>q. None)\<rparr>
   = (Waiting,
      \<lparr>trace = [Polled (Some \<lparr>Tasks = Some \<lparr>Running = 1, Pending = 5\<rparr>,
                       Diskspace = Some \<lparr>Analyses = Some \<lparr>Total = 0, Free = 2097152, Used = 0\<rparr>\<rparr>\<rparr>),
                Info ''Slowdown: 5 pending jobs, 2 MB free space'', Slept 30],
       publish_err = (\<lambda>q. None), declare_err = (\<lambda>q. None)\<rparr>)"
  by (simp add: handleSubmit_def GetStatus_def FastGet_def admission_loop.simps slowdown_cond_def
      slowdown_line_def emit_def Itoa_def digits.simps quo_def)

end
